theory Spec2Isabelle
  imports Complex_Main "HOL-Library.Monad_Syntax" "HOL-Library.AList"
begin

section \<open>Data model (types.ts)\<close>

text \<open>
  A \<open>PartialDate\<close> has two optional fields. A \<open>Person\<close> carries its id, its names,
  two optional partial dates, an optional photo, the ordered array \<open>parentIds\<close>, the
  array \<open>siblingIds\<close> and optional notes. TypeScript arrays are lists, optional fields
  are options, strings are \<open>string\<close>. The field \<open>id\<close> is called \<open>p_id\<close>, since
  \<open>id\<close> is the identity function of HOL, and the field \<open>notes\<close> is called
  \<open>p_notes\<close>. A JavaScript number that holds a year is an \<open>int\<close>.

  \<open>FamilyData\<close> has a parameter for the representation of its persons. The handlers
  that read and write the declared fields of a person work on the record \<open>Person\<close>.
  The serialiser behind the dirty flag reads more of a person object than its declared
  fields (the order of its properties, and properties that the type does not name), so
  the program state holds the person objects themselves (\<open>json\<close>, below).
\<close>

record PartialDate =
  year :: "int option"
  date :: "string option"

record Person =
  p_id :: string
  firstName :: string
  lastName :: "string option"
  birth :: "PartialDate option"
  death :: "PartialDate option"
  photoDataUrl :: "string option"
  parentIds :: "string list"
  siblingIds :: "string list"
  p_notes :: "string option"

record 'p FamilyData =
  version :: nat
  updatedAt :: string
  people :: "'p list"

section \<open>Graph traversal (validation.ts)\<close>

text \<open>
  \<open>getDescendantIds\<close> keeps a \<open>Set\<close> of ids and an array used as a stack:
  \<open>queue.pop()\<close> takes the last element, \<open>queue.push\<close> appends. The inner
  \<open>for (const p of people)\<close> is \<open>scanChildren\<close>; the outer \<open>while\<close> is
  \<open>descendantsLoop\<close>, a partial function into \<open>option\<close>, so that a run that never
  leaves the loop has the value \<open>None\<close>.
\<close>

fun scanChildren :: "string \<Rightarrow> Person list \<Rightarrow> string set \<times> string list \<Rightarrow> string set \<times> string list" where
  "scanChildren current [] (descendants, queue) = (descendants, queue)"
| "scanChildren current (p # ps) (descendants, queue) =
     (if current \<in> set (parentIds p) \<and> p_id p \<notin> descendants
      then scanChildren current ps (insert (p_id p) descendants, queue @ [p_id p])
      else scanChildren current ps (descendants, queue))"

partial_function (option) descendantsLoop :: "Person list \<Rightarrow> string set \<times> string list \<Rightarrow> string set option" where
  "descendantsLoop persons st =
     (if snd st = [] then Some (fst st)
      else descendantsLoop persons (scanChildren (last (snd st)) persons (fst st, butlast (snd st))))"

declare descendantsLoop.simps [code]

definition getDescendantIds :: "string \<Rightarrow> Person list \<Rightarrow> string set option" where
  "getDescendantIds personId persons = descendantsLoop persons ({}, [personId])"

text \<open>
  \<open>getAncestorIds\<close>: \<open>people.find\<close> returns the first person with the id, the inner loop
  runs over that person's \<open>parentIds\<close>; an id that names nobody adds nothing.
\<close>

fun scanParents :: "string list \<Rightarrow> string set \<times> string list \<Rightarrow> string set \<times> string list" where
  "scanParents [] (ancestors, queue) = (ancestors, queue)"
| "scanParents (pid # pids) (ancestors, queue) =
     (if pid \<notin> ancestors
      then scanParents pids (insert pid ancestors, queue @ [pid])
      else scanParents pids (ancestors, queue))"

partial_function (option) ancestorsLoop :: "Person list \<Rightarrow> string set \<times> string list \<Rightarrow> string set option" where
  "ancestorsLoop persons st =
     (if snd st = [] then Some (fst st)
      else (case find (\<lambda>p. p_id p = last (snd st)) persons of
              Some person \<Rightarrow> ancestorsLoop persons (scanParents (parentIds person) (fst st, butlast (snd st)))
            | None \<Rightarrow> ancestorsLoop persons (fst st, butlast (snd st))))"

declare ancestorsLoop.simps [code]

definition getAncestorIds :: "string \<Rightarrow> Person list \<Rightarrow> string set option" where
  "getAncestorIds personId persons = ancestorsLoop persons ({}, [personId])"

text \<open>\<open>wouldCreateCycle\<close> returns early on equal ids and otherwise asks the descendant set.\<close>

definition wouldCreateCycle :: "string \<Rightarrow> string \<Rightarrow> Person list \<Rightarrow> bool option" where
  "wouldCreateCycle personId candidateParentId persons =
     (if personId = candidateParentId then Some True
      else (case getDescendantIds personId persons of
              None \<Rightarrow> None
            | Some descendants \<Rightarrow> Some (candidateParentId \<in> descendants)))"

text \<open>The ids that occur in the \<open>parentIds\<close> of some person of the list.\<close>

definition parentIdsOf :: "Person list \<Rightarrow> string set" where
  "parentIdsOf persons = (\<Union>p \<in> set persons. set (parentIds p))"

section \<open>Partial dates (validation.ts)\<close>

text \<open>
  \<open>a.date < b.date\<close> compares two JavaScript strings code unit by code unit;
  \<open>strLess\<close> does so on the character codes. \<open>a.date && b.date\<close> holds when both
  strings are present and non-empty; \<open>a.year != null\<close> when the year is present.
  \<open>comparePartialDates\<close> returns \<open>number | null\<close>, here \<open>int option\<close>.
\<close>

fun strLess :: "string \<Rightarrow> string \<Rightarrow> bool" where
  "strLess [] [] = False"
| "strLess [] (y # ys) = True"
| "strLess (x # xs) [] = False"
| "strLess (x # xs) (y # ys) =
     (if (of_char x :: nat) < of_char y then True
      else if (of_char y :: nat) < of_char x then False
      else strLess xs ys)"

definition truthy :: "string option \<Rightarrow> bool" where
  "truthy s = (case s of None \<Rightarrow> False | Some v \<Rightarrow> v \<noteq> [])"

definition compareYears :: "PartialDate \<Rightarrow> PartialDate \<Rightarrow> int option" where
  "compareYears a b =
     (case (year a, year b) of
        (Some ya, Some yb) \<Rightarrow> (if ya < yb then Some (- 1) else if ya > yb then Some 1 else Some 0)
      | _ \<Rightarrow> None)"

fun comparePartialDates :: "PartialDate option \<Rightarrow> PartialDate option \<Rightarrow> int option" where
  "comparePartialDates (Some a) (Some b) =
     (if truthy (date a) \<and> truthy (date b)
      then (case (date a, date b) of
              (Some da, Some db) \<Rightarrow>
                (if strLess da db then Some (- 1) else if strLess db da then Some 1 else Some 0)
            | _ \<Rightarrow> compareYears a b)
      else compareYears a b)"
| "comparePartialDates _ _ = None"

definition validateBirthDeath :: "PartialDate option \<Rightarrow> PartialDate option \<Rightarrow> string option" where
  "validateBirthDeath b d =
     (case comparePartialDates b d of
        Some cmp \<Rightarrow> (if cmp > 0 then Some ''Birth date must be before or equal to death date'' else None)
      | None \<Rightarrow> None)"

section \<open>The mutation orchestrator (App.tsx)\<close>

text \<open>
  \<open>ModalContext\<close> has three optional fields. \<open>handleSavePerson\<close> receives an optional
  context and tests \<open>ctx?.linkAsParentOf\<close> and \<open>ctx?.linkAsSiblingOf\<close> for truthiness:
  an absent context, an absent field and the empty string all skip the step.
  \<open>Array.findIndex\<close> returns the first index whose element satisfies the test, or -1,
  here \<open>None\<close>.
\<close>

record ModalContext =
  linkAsParentOf :: "string option"
  presetParentIds :: "string list option"
  linkAsSiblingOf :: "string option"

fun findIndex :: "('a \<Rightarrow> bool) \<Rightarrow> 'a list \<Rightarrow> nat option" where
  "findIndex P [] = None"
| "findIndex P (x # xs) = (if P x then Some 0 else map_option Suc (findIndex P xs))"

definition truthyField :: "(ModalContext \<Rightarrow> string option) \<Rightarrow> ModalContext option \<Rightarrow> string option" where
  "truthyField f ctx =
     (case ctx of
        None \<Rightarrow> None
      | Some c \<Rightarrow> (case f c of None \<Rightarrow> None | Some t \<Rightarrow> if t = [] then None else Some t))"

text \<open>Lines 72 to 78: replace the person with the same id, or append the new person.\<close>

definition upsertPerson :: "Person \<Rightarrow> Person list \<Rightarrow> Person list" where
  "upsertPerson person newPeople =
     (case findIndex (\<lambda>p. p_id p = p_id person) newPeople of
        Some idx \<Rightarrow> newPeople[idx := person]
      | None \<Rightarrow> newPeople @ [person])"

text \<open>Lines 81 to 92, the "Create New Parent" flow.\<close>

definition linkParentStep :: "Person \<Rightarrow> ModalContext option \<Rightarrow> Person list \<Rightarrow> Person list" where
  "linkParentStep person ctx newPeople =
     (case truthyField linkAsParentOf ctx of
        None \<Rightarrow> newPeople
      | Some t \<Rightarrow>
          (case findIndex (\<lambda>p. p_id p = t) newPeople of
             None \<Rightarrow> newPeople
           | Some targetIdx \<Rightarrow>
               (let target = newPeople ! targetIdx in
                if p_id person \<notin> set (parentIds target) \<and> length (parentIds target) < 2
                then newPeople[targetIdx := target\<lparr>parentIds := parentIds target @ [p_id person]\<rparr>]
                else newPeople)))"

text \<open>
  Lines 95 to 114, the "Add Sibling" flow: the link on the target when the target is found,
  then the reverse link on the saved person, whether the target was found or not.
\<close>

definition linkSiblingStep :: "Person \<Rightarrow> ModalContext option \<Rightarrow> Person list \<Rightarrow> Person list" where
  "linkSiblingStep person ctx newPeople =
     (case truthyField linkAsSiblingOf ctx of
        None \<Rightarrow> newPeople
      | Some t \<Rightarrow>
          (let newPeople1 =
             (case findIndex (\<lambda>p. p_id p = t) newPeople of
                None \<Rightarrow> newPeople
              | Some targetIdx \<Rightarrow>
                  (let target = newPeople ! targetIdx in
                   if p_id person \<notin> set (siblingIds target)
                   then newPeople[targetIdx := target\<lparr>siblingIds := siblingIds target @ [p_id person]\<rparr>]
                   else newPeople))
           in (case findIndex (\<lambda>p. p_id p = p_id person) newPeople1 of
                 None \<Rightarrow> newPeople1
               | Some personIdx \<Rightarrow>
                   (if t \<notin> set (siblingIds (newPeople1 ! personIdx))
                    then newPeople1[personIdx := (newPeople1 ! personIdx)
                           \<lparr>siblingIds := siblingIds (newPeople1 ! personIdx) @ [t]\<rparr>]
                    else newPeople1))))"

text \<open>
  Lines 121 to 129: for each sibling id the saved person claims, add the reverse link on
  the first person with that id.
\<close>

fun addReverseLinks :: "Person \<Rightarrow> string list \<Rightarrow> Person list \<Rightarrow> Person list" where
  "addReverseLinks person [] newPeople = newPeople"
| "addReverseLinks person (sibId # rest) newPeople =
     addReverseLinks person rest
       (case findIndex (\<lambda>p. p_id p = sibId) newPeople of
          None \<Rightarrow> newPeople
        | Some sibIdx \<Rightarrow>
            (if p_id person \<notin> set (siblingIds (newPeople ! sibIdx))
             then newPeople[sibIdx := (newPeople ! sibIdx)
                    \<lparr>siblingIds := siblingIds (newPeople ! sibIdx) @ [p_id person]\<rparr>]
             else newPeople))"

text \<open>
  Lines 131 to 140: \<open>for (const other of newPeople)\<close> walks the array by index while the
  body replaces elements of the same array, so the loop carries the index \<open>i\<close> and the
  array. \<open>otherIdx\<close> is the first index with the id of \<open>other\<close>; it always exists, since
  \<open>other\<close> itself is in the array, and the \<open>None\<close> branch is never taken.
\<close>

function removeReverseLinks :: "nat \<Rightarrow> Person \<Rightarrow> Person \<Rightarrow> Person list \<Rightarrow> Person list" where
  "removeReverseLinks i person current newPeople =
     (if i < length newPeople then
        (let other = newPeople ! i in
         if p_id other = p_id person then removeReverseLinks (Suc i) person current newPeople
         else if p_id person \<in> set (siblingIds other) \<and> p_id other \<notin> set (siblingIds current)
         then (case findIndex (\<lambda>p. p_id p = p_id other) newPeople of
                 None \<Rightarrow> removeReverseLinks (Suc i) person current newPeople
               | Some otherIdx \<Rightarrow>
                   removeReverseLinks (Suc i) person current
                     (newPeople[otherIdx := (newPeople ! otherIdx)
                        \<lparr>siblingIds := filter (\<lambda>sid. sid \<noteq> p_id person) (siblingIds (newPeople ! otherIdx))\<rparr>]))
         else removeReverseLinks (Suc i) person current newPeople)
      else newPeople)"
  by pat_completeness auto
termination
  by (relation "measure (\<lambda>(i, person, current, newPeople). length newPeople - i)") auto

text \<open>Lines 117 to 141: the synchronisation of the sibling links of the saved person.\<close>

definition syncSiblings :: "Person \<Rightarrow> Person list \<Rightarrow> Person list" where
  "syncSiblings person newPeople =
     (case findIndex (\<lambda>p. p_id p = p_id person) newPeople of
        None \<Rightarrow> newPeople
      | Some personIdx \<Rightarrow>
          (let current = newPeople ! personIdx in
           removeReverseLinks 0 person current (addReverseLinks person (siblingIds current) newPeople)))"

text \<open>
  \<open>mutate\<close> applies the update to the previous data and stamps \<open>updatedAt\<close> with the
  current time, which is a parameter here. The snapshot request it fires first does not
  touch the data.
\<close>

definition mutate :: "string \<Rightarrow> ('p FamilyData \<Rightarrow> 'p FamilyData) \<Rightarrow> 'p FamilyData \<Rightarrow> 'p FamilyData" where
  "mutate now fn prev = (fn prev)\<lparr>updatedAt := now\<rparr>"

definition handleSavePerson ::
  "string \<Rightarrow> Person \<Rightarrow> ModalContext option \<Rightarrow> Person FamilyData \<Rightarrow> Person FamilyData" where
  "handleSavePerson now person ctx =
     mutate now (\<lambda>prev. prev\<lparr>people :=
       syncSiblings person
         (linkSiblingStep person ctx
           (linkParentStep person ctx
             (upsertPerson person (people prev))))\<rparr>)"

definition handleDeletePerson :: "string \<Rightarrow> string \<Rightarrow> Person FamilyData \<Rightarrow> Person FamilyData" where
  "handleDeletePerson now ident =
     mutate now (\<lambda>prev. prev\<lparr>people :=
       map (\<lambda>p. p\<lparr>parentIds := filter (\<lambda>pid. pid \<noteq> ident) (parentIds p),
                  siblingIds := filter (\<lambda>sid. sid \<noteq> ident) (siblingIds p)\<rparr>)
         (filter (\<lambda>p. p_id p \<noteq> ident) (people prev))\<rparr>)"

text \<open>The parent checkboxes of the modal (PersonModal.tsx, lines 118 to 126).\<close>

definition handleParentToggle :: "string \<Rightarrow> string list \<Rightarrow> string list" where
  "handleParentToggle ident prev =
     (if ident \<in> set prev then filter (\<lambda>pid. pid \<noteq> ident) prev
      else if length prev \<ge> 2 then prev
      else prev @ [ident])"

text \<open>
  The handlers that open the modal for a link flow set its context (App.tsx, lines 212 to
  237); \<open>handleAddSibling\<close> returns early when the person is not found. The modal starts
  its list of parents from the edited person, else from the preset of the context, else
  empty (PersonModal.tsx, lines 52 to 54).
\<close>

definition handleCreateParent :: "string \<Rightarrow> ModalContext" where
  "handleCreateParent forPersonId =
     \<lparr>linkAsParentOf = Some forPersonId, presetParentIds = None, linkAsSiblingOf = None\<rparr>"

definition handleAddChild :: "string \<Rightarrow> ModalContext" where
  "handleAddChild ofPersonId =
     \<lparr>linkAsParentOf = None, presetParentIds = Some [ofPersonId], linkAsSiblingOf = None\<rparr>"

definition handleAddSibling :: "string \<Rightarrow> Person list \<Rightarrow> ModalContext option" where
  "handleAddSibling ofPersonId persons =
     (case find (\<lambda>p. p_id p = ofPersonId) persons of
        None \<Rightarrow> None
      | Some person \<Rightarrow>
          Some \<lparr>linkAsParentOf = None,
                presetParentIds = (if length (parentIds person) > 0 then Some (parentIds person) else None),
                linkAsSiblingOf = Some ofPersonId\<rparr>)"

definition initialParentIds :: "Person option \<Rightarrow> ModalContext option \<Rightarrow> string list" where
  "initialParentIds person ctx =
     (case person of
        Some p \<Rightarrow> parentIds p
      | None \<Rightarrow>
          (case ctx of
             None \<Rightarrow> []
           | Some c \<Rightarrow> (case presetParentIds c of None \<Rightarrow> [] | Some l \<Rightarrow> l)))"

section \<open>Import and dirty tracking (persistence.ts, App.tsx)\<close>

text \<open>
  \<open>validateFamilyData\<close> receives the result of \<open>JSON.parse\<close>, a value of unknown shape.
  \<open>json\<close> is that value; an object lists its own properties in order, each key once.
  \<open>getProp\<close> is the property read \<open>v.k\<close>, with \<open>None\<close> for \<open>undefined\<close>; none of
  the keys read here is a property of an array. \<open>typeof v === 'object' && v !== null\<close>
  holds of objects and of arrays.
\<close>

datatype json = JNull | JBool bool | JNum real | JStr string | JArr "json list" | JObj "(string \<times> json) list"

fun getProp :: "json \<Rightarrow> string \<Rightarrow> json option" where
  "getProp (JObj fs) k = map_of fs k"
| "getProp _ k = None"

fun setProp :: "json \<Rightarrow> string \<Rightarrow> json \<Rightarrow> json" where
  "setProp (JObj fs) k v =
     (if k \<in> fst ` set fs then JObj (map (\<lambda>(k', v'). if k' = k then (k', v) else (k', v')) fs)
      else JObj (fs @ [(k, v)]))"
| "setProp j k v = j"

fun isObject :: "json \<Rightarrow> bool" where
  "isObject (JObj fs) = True"
| "isObject (JArr xs) = True"
| "isObject _ = False"

fun isString :: "json option \<Rightarrow> bool" where
  "isString (Some (JStr s)) = True"
| "isString _ = False"

fun isArray :: "json option \<Rightarrow> bool" where
  "isArray (Some (JArr xs)) = True"
| "isArray _ = False"

text \<open>
  The body of the loop over \<open>d.people\<close>: \<open>None\<close> where the source returns false,
  otherwise the person after the migration, which adds an empty \<open>siblingIds\<close> when the
  property is not an array.
\<close>

definition validatePerson :: "json \<Rightarrow> json option" where
  "validatePerson p =
     (if \<not> isObject p then None
      else if \<not> isString (getProp p ''id'') then None
      else if \<not> isString (getProp p ''firstName'') then None
      else if \<not> isArray (getProp p ''parentIds'') then None
      else if \<not> isArray (getProp p ''siblingIds'') then Some (setProp p ''siblingIds'' (JArr []))
      else Some p)"

fun validatePeople :: "json list \<Rightarrow> json list option" where
  "validatePeople [] = Some []"
| "validatePeople (p # ps) =
     (case validatePerson p of
        None \<Rightarrow> None
      | Some p' \<Rightarrow> (case validatePeople ps of None \<Rightarrow> None | Some ps' \<Rightarrow> Some (p' # ps')))"

text \<open>
  \<open>validateFamilyData\<close> returns a boolean and migrates the object in place: the result is
  \<open>None\<close> for false and the migrated object for true.
\<close>

definition validateFamilyData :: "json \<Rightarrow> json option" where
  "validateFamilyData obj =
     (if \<not> isObject obj then None
      else if getProp obj ''version'' \<noteq> Some (JNum 1) then None
      else if \<not> isString (getProp obj ''updatedAt'') then None
      else (case getProp obj ''people'' of
              Some (JArr ps) \<Rightarrow>
                (case validatePeople ps of
                   None \<Rightarrow> None
                 | Some ps' \<Rightarrow> Some (setProp obj ''people'' (JArr ps')))
            | _ \<Rightarrow> None))"

text \<open>
  After a successful check the type guard \<open>obj is FamilyData\<close> lets the program use the
  same object as a \<open>FamilyData\<close>: the state keeps the person objects of the file as they
  are, with their properties in the order of the file and with every property that the
  type \<open>Person\<close> does not name. \<open>acceptedData\<close> reads the three declared properties of
  the object; the persons stay objects. It is defined on every object that
  \<open>validateFamilyData\<close> accepts.
\<close>

fun asString :: "json \<Rightarrow> string option" where
  "asString (JStr s) = Some s"
| "asString _ = None"

fun asArray :: "json \<Rightarrow> json list option" where
  "asArray (JArr js) = Some js"
| "asArray _ = None"

definition optionalProp :: "(json \<Rightarrow> 'a option) \<Rightarrow> json \<Rightarrow> string \<Rightarrow> 'a option option" where
  "optionalProp f j k = (case getProp j k of None \<Rightarrow> Some None | Some v \<Rightarrow> map_option Some (f v))"

definition requiredProp :: "(json \<Rightarrow> 'a option) \<Rightarrow> json \<Rightarrow> string \<Rightarrow> 'a option" where
  "requiredProp f j k = (case getProp j k of None \<Rightarrow> None | Some v \<Rightarrow> f v)"

definition acceptedData :: "json \<Rightarrow> json FamilyData option" where
  "acceptedData obj =
     do {
       u \<leftarrow> requiredProp asString obj ''updatedAt'';
       ps \<leftarrow> requiredProp asArray obj ''people'';
       Some \<lparr>version = 1, updatedAt = u, people = ps\<rparr>
     }"

text \<open>
  The declared fields of a person object, as the handlers and the layout read them.
  \<open>asPerson\<close> is \<open>None\<close> where a field holds a value of another type than the declared
  one, which the check of the import does not exclude and the record cannot hold.
\<close>

fun asStrings :: "json list \<Rightarrow> string list option" where
  "asStrings [] = Some []"
| "asStrings (j # js) = do { s \<leftarrow> asString j; ss \<leftarrow> asStrings js; Some (s # ss) }"

fun asStringArray :: "json \<Rightarrow> string list option" where
  "asStringArray (JArr js) = asStrings js"
| "asStringArray _ = None"

fun asYear :: "json \<Rightarrow> int option" where
  "asYear (JNum r) = (if r = of_int \<lfloor>r\<rfloor> then Some \<lfloor>r\<rfloor> else None)"
| "asYear _ = None"

definition asPartialDate :: "json \<Rightarrow> PartialDate option" where
  "asPartialDate j =
     (if \<not> isObject j then None
      else do {
        y \<leftarrow> optionalProp asYear j ''year'';
        d \<leftarrow> optionalProp asString j ''date'';
        Some \<lparr>year = y, date = d\<rparr>
      })"

definition asPerson :: "json \<Rightarrow> Person option" where
  "asPerson j =
     do {
       i \<leftarrow> requiredProp asString j ''id'';
       fn \<leftarrow> requiredProp asString j ''firstName'';
       ln \<leftarrow> optionalProp asString j ''lastName'';
       b \<leftarrow> optionalProp asPartialDate j ''birth'';
       d \<leftarrow> optionalProp asPartialDate j ''death'';
       ph \<leftarrow> optionalProp asString j ''photoDataUrl'';
       ps \<leftarrow> requiredProp asStringArray j ''parentIds'';
       ss \<leftarrow> requiredProp asStringArray j ''siblingIds'';
       n \<leftarrow> optionalProp asString j ''notes'';
       Some \<lparr>p_id = i, firstName = fn, lastName = ln, birth = b, death = d, photoDataUrl = ph,
              parentIds = ps, siblingIds = ss, p_notes = n\<rparr>
     }"

fun asPersons :: "json list \<Rightarrow> Person list option" where
  "asPersons [] = Some []"
| "asPersons (j # js) = do { p \<leftarrow> asPerson j; ps \<leftarrow> asPersons js; Some (p # ps) }"

text \<open>
  \<open>computeHash\<close> is \<open>JSON.stringify(data.people)\<close>. The serialiser of the platform is the
  parameter \<open>stringify\<close>, a function of the array of person objects: what it writes is
  determined by the objects, property by property in their order. The program state holds
  the data and the hash recorded at the last export or import; \<open>dirty\<close> is recomputed from
  the two (App.tsx, line 30).
\<close>

definition computeHash :: "(json list \<Rightarrow> string) \<Rightarrow> json FamilyData \<Rightarrow> string" where
  "computeHash stringify d = stringify (people d)"

record AppState =
  data :: "json FamilyData"
  baselineHash :: string
  selectedId :: "string option"

definition dirty :: "(json list \<Rightarrow> string) \<Rightarrow> AppState \<Rightarrow> bool" where
  "dirty stringify st = (computeHash stringify (data st) \<noteq> baselineHash st)"

text \<open>
  \<open>handleImport\<close> on a parsed file: a rejected object leaves the state as it is (after an
  alert); an accepted object becomes the data, and its hash the baseline. \<open>handleExport\<close>
  writes the file and records the hash of the current data.
\<close>

definition handleImport :: "(json list \<Rightarrow> string) \<Rightarrow> json \<Rightarrow> AppState \<Rightarrow> AppState option" where
  "handleImport stringify obj st =
     (case validateFamilyData obj of
        None \<Rightarrow> Some st
      | Some obj' \<Rightarrow>
          (case acceptedData obj' of
             None \<Rightarrow> None
           | Some d \<Rightarrow> Some (st\<lparr>data := d, baselineHash := computeHash stringify d, selectedId := None\<rparr>)))"

definition handleExport :: "(json list \<Rightarrow> string) \<Rightarrow> AppState \<Rightarrow> AppState" where
  "handleExport stringify st = st\<lparr>baselineHash := computeHash stringify (data st)\<rparr>"

text \<open>The state in which the program starts: \<open>emptyData()\<close> and its hash, nothing selected.\<close>

definition emptyData :: "string \<Rightarrow> 'p FamilyData" where
  "emptyData now = \<lparr>version = 1, updatedAt = now, people = []\<rparr>"

definition initialState :: "(json list \<Rightarrow> string) \<Rightarrow> string \<Rightarrow> AppState" where
  "initialState stringify now =
     \<lparr>data = emptyData now, baselineHash = computeHash stringify (emptyData now), selectedId = None\<rparr>"

section \<open>The layout engine (TreeCanvas.tsx)\<close>

text \<open>
  Coordinates are JavaScript numbers; they are modelled as real numbers, so the
  arithmetic of the model is exact where the program rounds to doubles. Generations are
  natural numbers.
\<close>

definition NODE_W :: real where "NODE_W = 180"
definition GAP_H :: real where "GAP_H = 50"
definition GAP_V :: real where "GAP_V = 140"

text \<open>
  \<open>idSet\<close> is \<open>new Set(people.map(p => p.id))\<close>; \<open>personMap\<close> is
  \<open>new Map(people.map(p => [p.id, p]))\<close>, in which a later person with the same id
  replaces an earlier one.
\<close>

definition idSetOf :: "Person list \<Rightarrow> string set" where
  "idSetOf persons = set (map p_id persons)"

definition personMapOf :: "Person list \<Rightarrow> (string \<rightharpoonup> Person)" where
  "personMapOf persons = fold (\<lambda>p m. m(p_id p \<mapsto> p)) persons Map.empty"

text \<open>
  \<open>Math.max\<close> and \<open>Math.min\<close> of a spread array. With no argument they are the
  infinities; every call in the source is behind a test that the array is not empty, so
  the two functions are given on non-empty lists only.
\<close>

fun mathMax :: "'a::linorder list \<Rightarrow> 'a" where
  "mathMax (x # xs) = fold max xs x"

fun mathMin :: "'a::linorder list \<Rightarrow> 'a" where
  "mathMin (x # xs) = fold min xs x"

text \<open>
  The map \<open>gen\<close> of \<open>assignGenerations\<close> is iterated later in insertion order, so it is
  an association list: \<open>gen.set\<close> replaces the value of a key in place or appends a new
  key (\<open>AList.update\<close>), \<open>gen.has\<close> and \<open>gen.get\<close> are \<open>map_of\<close>.

  \<open>compute\<close> is the inner recursive function. \<open>visiting.add(id)\<close> before the parents
  and \<open>visiting.delete(id)\<close> after them leave the set as the caller passed it, because
  \<open>id\<close> was not a member (the cycle guard has returned otherwise); the callee gets
  \<open>insert ident visiting\<close> and the caller goes on with \<open>visiting\<close>. The map \<open>gen\<close> is
  threaded through all calls. \<open>computeParents\<close> is \<open>parents.map((pid) => compute(pid,
  visiting))\<close>, left to right. \<open>personMap.get(id)!\<close> on an id that names nobody would
  make \<open>person.parentIds\<close> throw a TypeError; that is the result \<open>None\<close>.
\<close>

type_synonym GenMap = "(string \<times> nat) list"

lemma personMapOf_fold_Some:
  "fold (\<lambda>p m. m(p_id p \<mapsto> p)) persons m0 i = Some q \<Longrightarrow> m0 i = Some q \<or> (q \<in> set persons \<and> p_id q = i)"
proof (induction persons arbitrary: m0)
  case Nil
  then show ?case by simp
next
  case (Cons a persons)
  from Cons.prems have "fold (\<lambda>p m. m(p_id p \<mapsto> p)) persons (m0(p_id a \<mapsto> a)) i = Some q"
    by (simp only: fold_simps)
  from Cons.IH [OF this] show ?case
    by (cases "i = p_id a") auto
qed

lemma personMapOf_Some_idSetOf: "personMapOf persons i = Some q \<Longrightarrow> i \<in> idSetOf persons"
  using personMapOf_fold_Some [of persons Map.empty i q] by (auto simp: personMapOf_def idSetOf_def)

function compute :: "Person list \<Rightarrow> string \<Rightarrow> string set \<Rightarrow> GenMap \<Rightarrow> (nat \<times> GenMap) option"
  and computeParents :: "Person list \<Rightarrow> string list \<Rightarrow> string set \<Rightarrow> GenMap \<Rightarrow> (nat list \<times> GenMap) option"
where
  "compute persons ident visiting gen =
     (case map_of gen ident of
        Some g \<Rightarrow> Some (g, gen)
      | None \<Rightarrow>
          (if ident \<in> visiting then Some (0, AList.update ident 0 gen)
           else (case personMapOf persons ident of
                   None \<Rightarrow> None
                 | Some person \<Rightarrow>
                     (case computeParents persons
                             (filter (\<lambda>pid. pid \<in> idSetOf persons) (parentIds person))
                             (insert ident visiting) gen of
                        None \<Rightarrow> None
                      | Some (gs, gen') \<Rightarrow>
                          (let g = (if length (filter (\<lambda>pid. pid \<in> idSetOf persons) (parentIds person)) > 0
                                    then mathMax gs + 1 else 0)
                           in Some (g, AList.update ident g gen'))))))"
| "computeParents persons [] visiting gen = Some ([], gen)"
| "computeParents persons (pid # pids) visiting gen =
     (case compute persons pid visiting gen of
        None \<Rightarrow> None
      | Some (g, gen') \<Rightarrow>
          (case computeParents persons pids visiting gen' of
             None \<Rightarrow> None
           | Some (gs, gen'') \<Rightarrow> Some (g # gs, gen'')))"
  by pat_completeness auto
termination
proof (relation "inv_image (less_than <*lex*> less_than)
    (\<lambda>x. case x of
       Inl (persons, ident, visiting, gen) \<Rightarrow> (card (idSetOf persons - visiting), 0)
     | Inr (persons, pids, visiting, gen) \<Rightarrow> (card (idSetOf persons - visiting), Suc (length pids)))",
    goal_cases)
  case 1
  show ?case by (intro wf_inv_image wf_lex_prod wf_less_than)
next
  case (2 persons ident visiting gen person)
  have mem: "ident \<in> idSetOf persons - visiting"
    using 2 personMapOf_Some_idSetOf by auto
  have eq: "idSetOf persons - insert ident visiting = (idSetOf persons - visiting) - {ident}"
    by auto
  have fin: "finite (idSetOf persons - visiting)" by (simp add: idSetOf_def)
  have "card ((idSetOf persons - visiting) - {ident}) < card (idSetOf persons - visiting)"
    using fin mem by (rule card_Diff1_less)
  then have "card (idSetOf persons - insert ident visiting) < card (idSetOf persons - visiting)"
    by (simp only: eq)
  then show ?case by simp
next
  case 3
  show ?case by simp
next
  case 4
  show ?case by simp
qed

text \<open>\<open>for (const p of people) compute(p.id, new Set())\<close>, from the empty map.\<close>

fun assignLoop :: "Person list \<Rightarrow> Person list \<Rightarrow> GenMap \<Rightarrow> GenMap option" where
  "assignLoop persons [] gen = Some gen"
| "assignLoop persons (p # ps) gen =
     (case compute persons (p_id p) {} gen of
        None \<Rightarrow> None
      | Some (g, gen') \<Rightarrow> assignLoop persons ps gen')"

definition assignGenerations :: "Person list \<Rightarrow> GenMap option" where
  "assignGenerations persons = assignLoop persons persons []"

text \<open>
  The map \<open>xPos\<close> is read with \<open>has\<close> and \<open>get\<close> and written with \<open>set\<close>; its order
  of insertion only orders the entries of the result map \<open>positions\<close>, which is read with
  \<open>get\<close>. Both are maps \<open>string \<rightharpoonup> _\<close>. \<open>xPos.get(id)!\<close> is \<open>the (xPos id)\<close>.
\<close>

type_synonym XPos = "string \<rightharpoonup> real"

definition avgX :: "string list \<Rightarrow> XPos \<Rightarrow> real" where
  "avgX ids xPos =
     (let valid = filter (\<lambda>i. xPos i \<noteq> None) ids in
      if length valid = 0 then 0
      else foldl (\<lambda>s i. s + the (xPos i)) 0 valid / real (length valid))"

text \<open>
  \<open>Array.prototype.sort\<close> with a comparator is stable: the elements come out in
  non-decreasing order of the comparator, and elements it calls equal keep their order.
  \<open>sortBy\<close> is the insertion sort with that result: each element, from left to right,
  goes behind the elements that do not compare greater.
\<close>

fun insertBy :: "('a \<Rightarrow> 'a \<Rightarrow> real) \<Rightarrow> 'a \<Rightarrow> 'a list \<Rightarrow> 'a list" where
  "insertBy cmp x [] = [x]"
| "insertBy cmp x (y # ys) = (if cmp y x \<le> 0 then y # insertBy cmp x ys else x # y # ys)"

definition sortBy :: "('a \<Rightarrow> 'a \<Rightarrow> real) \<Rightarrow> 'a list \<Rightarrow> 'a list" where
  "sortBy cmp xs = foldl (\<lambda>acc x. insertBy cmp x acc) [] xs"

text \<open>
  \<open>resolveOverlaps\<close>: the loop from index 1 over the sorted copy reads the positions as
  the earlier rounds have left them.
\<close>

fun pushRight :: "string list \<Rightarrow> XPos \<Rightarrow> XPos" where
  "pushRight (a # b # rest) xPos =
     (let prevX = the (xPos a); currX = the (xPos b) in
      pushRight (b # rest)
        (if currX - prevX < NODE_W + GAP_H then xPos(b \<mapsto> prevX + (NODE_W + GAP_H)) else xPos))"
| "pushRight rest xPos = xPos"

definition resolveOverlaps :: "string list \<Rightarrow> XPos \<Rightarrow> XPos" where
  "resolveOverlaps grp xPos =
     (if length grp \<le> 1 then xPos
      else pushRight (sortBy (\<lambda>a b. the (xPos a) - the (xPos b)) grp) xPos)"

definition centerGroup :: "string list \<Rightarrow> XPos \<Rightarrow> XPos" where
  "centerGroup grp xPos =
     (if length grp = 0 then xPos
      else (let xs = map (\<lambda>i. the (xPos i)) grp;
                mid = (mathMin xs + mathMax xs) / 2
            in fold (\<lambda>i m. m(i \<mapsto> the (m i) - mid)) grp xPos))"

text \<open>
  The children lookup: for every person and every parent id of the person that is in the
  id set, the person's id is appended to the children of that parent.
\<close>

definition childrenOfMap :: "Person list \<Rightarrow> (string \<rightharpoonup> string list)" where
  "childrenOfMap persons =
     fold (\<lambda>p m.
        fold (\<lambda>pid m'. if pid \<in> idSetOf persons
                        then m'(pid \<mapsto> (case m' pid of None \<Rightarrow> [] | Some l \<Rightarrow> l) @ [p_id p])
                        else m')
          (parentIds p) m)
       persons Map.empty"

text \<open>
  The groups: the entries of \<open>gens\<close> in insertion order, each id appended to the array of
  its generation. \<open>layerKeys\<close> are the generations that occur, in ascending order.
\<close>

definition groupByGeneration :: "GenMap \<Rightarrow> (nat \<times> string list) list" where
  "groupByGeneration gens =
     fold (\<lambda>(i, g) groups.
        AList.update g ((case map_of groups g of None \<Rightarrow> [] | Some l \<Rightarrow> l) @ [i]) groups)
       gens []"

definition layerKeysOf :: "(nat \<times> string list) list \<Rightarrow> nat list" where
  "layerKeysOf groups = sort (map fst groups)"

text \<open>
  Pass 1. The comparator of \<open>group.sort\<close> reads the positions of the layers above;
  \<open>localeCompare\<close> is the collation of the platform and a parameter \<open>lc\<close> of the layout.
  The sort is in place, so the sorted array is what the later passes find in \<open>groups\<close>.
\<close>

definition fullName :: "Person \<Rightarrow> string" where
  "fullName p = firstName p @ (case lastName p of None \<Rightarrow> [] | Some l \<Rightarrow> l)"

definition pass1Compare :: "(string \<Rightarrow> string \<Rightarrow> real) \<Rightarrow> Person list \<Rightarrow> XPos \<Rightarrow> string \<Rightarrow> string \<Rightarrow> real" where
  "pass1Compare lc persons xPos a b =
     (let pa = the (personMapOf persons a);
          pb = the (personMapOf persons b);
          xA = avgX (filter (\<lambda>pid. pid \<in> idSetOf persons) (parentIds pa)) xPos;
          xB = avgX (filter (\<lambda>pid. pid \<in> idSetOf persons) (parentIds pb)) xPos
      in if xA \<noteq> xB then xA - xB else lc (fullName pa) (fullName pb))"

fun placeEvenly :: "string list \<Rightarrow> nat \<Rightarrow> XPos \<Rightarrow> XPos" where
  "placeEvenly [] i xPos = xPos"
| "placeEvenly (a # rest) i xPos = placeEvenly rest (Suc i) (xPos(a \<mapsto> real i * (NODE_W + GAP_H)))"

fun pass1 :: "(string \<Rightarrow> string \<Rightarrow> real) \<Rightarrow> Person list \<Rightarrow> nat list \<Rightarrow>
    (nat \<rightharpoonup> string list) \<times> XPos \<Rightarrow> (nat \<rightharpoonup> string list) \<times> XPos" where
  "pass1 lc persons [] (groups, xPos) = (groups, xPos)"
| "pass1 lc persons (key # keys) (groups, xPos) =
     (let grp = sortBy (pass1Compare lc persons xPos) (the (groups key))
      in pass1 lc persons keys
           (groups(key \<mapsto> grp), centerGroup grp (placeEvenly grp 0 xPos)))"

text \<open>Pass 2, over the layers from the deepest up: centre each parent over its children.\<close>

fun centerOverChildren :: "(string \<rightharpoonup> string list) \<Rightarrow> string list \<Rightarrow> XPos \<Rightarrow> XPos" where
  "centerOverChildren childrenOf [] xPos = xPos"
| "centerOverChildren childrenOf (i # rest) xPos =
     (let ch = filter (\<lambda>cid. xPos cid \<noteq> None) (case childrenOf i of None \<Rightarrow> [] | Some l \<Rightarrow> l)
      in centerOverChildren childrenOf rest
           (if length ch > 0
            then (let childXs = map (\<lambda>cid. the (xPos cid)) ch
                  in xPos(i \<mapsto> (mathMin childXs + mathMax childXs) / 2))
            else xPos))"

fun pass2 :: "(string \<rightharpoonup> string list) \<Rightarrow> (nat \<rightharpoonup> string list) \<Rightarrow> nat list \<Rightarrow> XPos \<Rightarrow> XPos" where
  "pass2 childrenOf groups [] xPos = xPos"
| "pass2 childrenOf groups (key # keys) xPos =
     (let grp = the (groups key)
      in pass2 childrenOf groups keys (resolveOverlaps grp (centerOverChildren childrenOf grp xPos)))"

text \<open>Pass 3, from the top down: pull each child toward the average of its parents.\<close>

fun pullTowardParents :: "Person list \<Rightarrow> string list \<Rightarrow> XPos \<Rightarrow> XPos" where
  "pullTowardParents persons [] xPos = xPos"
| "pullTowardParents persons (i # rest) xPos =
     (let person = the (personMapOf persons i);
          validParents = filter (\<lambda>pid. xPos pid \<noteq> None) (parentIds person)
      in pullTowardParents persons rest
           (if length validParents > 0
            then (let parentAvg = avgX validParents xPos; curr = the (xPos i)
                  in xPos(i \<mapsto> curr * 0.3 + parentAvg * 0.7))
            else xPos))"

fun pass3 :: "Person list \<Rightarrow> (nat \<rightharpoonup> string list) \<Rightarrow> nat list \<Rightarrow> XPos \<Rightarrow> XPos" where
  "pass3 persons groups [] xPos = xPos"
| "pass3 persons groups (key # keys) xPos =
     (let grp = the (groups key)
      in pass3 persons groups keys (resolveOverlaps grp (pullTowardParents persons grp xPos)))"

text \<open>The result: a position for every id of \<open>xPos\<close> and an edge for every present parent.\<close>

record Position =
  pos_x :: real
  pos_y :: real

record Edge =
  e_id :: string
  source :: string
  target :: string
  e_type :: string

record LayoutResult =
  positions :: "string \<rightharpoonup> Position"
  edges :: "Edge list"

definition edgesOf :: "Person list \<Rightarrow> Edge list" where
  "edgesOf persons =
     concat (map (\<lambda>p. map (\<lambda>pid. \<lparr>e_id = ''e-'' @ pid @ ''-'' @ p_id p, source = pid,
                                     target = p_id p, e_type = ''smoothstep''\<rparr>)
                         (filter (\<lambda>pid. pid \<in> idSetOf persons) (parentIds p)))
                 persons)"

definition xPositions :: "(string \<Rightarrow> string \<Rightarrow> real) \<Rightarrow> Person list \<Rightarrow> GenMap \<Rightarrow> XPos" where
  "xPositions lc persons gens =
     (let groups0 = groupByGeneration gens;
          layerKeys = layerKeysOf groups0;
          (groups, xPos1) = pass1 lc persons layerKeys (map_of groups0, Map.empty);
          xPos2 = pass2 (childrenOfMap persons) groups (rev layerKeys) xPos1
      in pass3 persons groups layerKeys xPos2)"

definition computeLayout :: "(string \<Rightarrow> string \<Rightarrow> real) \<Rightarrow> Person list \<Rightarrow> LayoutResult option" where
  "computeLayout lc persons =
     (if length persons = 0 then Some \<lparr>positions = Map.empty, edges = []\<rparr>
      else (case assignGenerations persons of
              None \<Rightarrow> None
            | Some gens \<Rightarrow>
                (let xPos = xPositions lc persons gens
                 in Some \<lparr>positions =
                            (\<lambda>i. case xPos i of
                                    None \<Rightarrow> None
                                  | Some x \<Rightarrow>
                                      Some \<lparr>pos_x = x,
                                            pos_y = real (case map_of gens i of None \<Rightarrow> 0 | Some g \<Rightarrow> g) * GAP_V\<rparr>),
                          edges = edgesOf persons\<rparr>)))"

text \<open>
  A comparator to run examples with: the order of the code units. On two equal strings
  it is 0, as \<open>localeCompare\<close> is in every locale.
\<close>

definition codeUnitCompare :: "string \<Rightarrow> string \<Rightarrow> real" where
  "codeUnitCompare a b = (if strLess a b then - 1 else if strLess b a then 1 else 0)"

section \<open>Predicates of the specification and example inputs\<close>

text \<open>The cardinality invariant: no person of the list has more than two parent ids.\<close>

definition atMostTwoParents :: "Person list \<Rightarrow> bool" where
  "atMostTwoParents persons = (\<forall>p \<in> set persons. length (parentIds p) \<le> 2)"




definition addLink :: "string \<Rightarrow> Person \<Rightarrow> Person" where
  "addLink pid p = (if pid \<notin> set (siblingIds p) then p\<lparr>siblingIds := siblingIds p @ [pid]\<rparr> else p)"

definition dropLink :: "string \<Rightarrow> Person \<Rightarrow> Person \<Rightarrow> Person" where
  "dropLink pid current p =
     (if p_id p \<noteq> pid \<and> pid \<in> set (siblingIds p) \<and> p_id p \<notin> set (siblingIds current)
      then p\<lparr>siblingIds := filter (\<lambda>sid. sid \<noteq> pid) (siblingIds p)\<rparr> else p)"

text \<open>
  The parents of a person that are present in the person set (the filter the layout
  writes out at each use), the edges from a person's id to its present parents, and the
  generation the specification gives a person from the generations \<open>g\<close> of the others:
  0 without present parents, otherwise 1 plus the maximum over them.
\<close>

definition validParents :: "Person list \<Rightarrow> Person \<Rightarrow> string list" where
  "validParents persons p = filter (\<lambda>pid. pid \<in> idSetOf persons) (parentIds p)"








text \<open>
  Inputs for the examples: a person with an id, a first name, parent ids and sibling ids
  and nothing else; a serialiser that writes, as \<open>JSON.stringify\<close> does, the elements of
  an array and the properties of an object in their order (it leaves out the quotes and
  the escapes, and writes a number by its integer part); an import file whose only person
  has three parents.
\<close>

definition examplePerson :: "string \<Rightarrow> string \<Rightarrow> string list \<Rightarrow> string list \<Rightarrow> Person" where
  "examplePerson i n ps ss =
     \<lparr>p_id = i, firstName = n, lastName = None, birth = None, death = None,
      photoDataUrl = None, parentIds = ps, siblingIds = ss, p_notes = None\<rparr>"

fun digitsOf :: "nat \<Rightarrow> string" where
  "digitsOf n = (if n < 10 then [char_of (48 + n)] else digitsOf (n div 10) @ [char_of (48 + n mod 10)])"

fun joinComma :: "string list \<Rightarrow> string" where
  "joinComma [] = []"
| "joinComma [s] = s"
| "joinComma (s # t # ss) = s @ '','' @ joinComma (t # ss)"

fun writeJson :: "json \<Rightarrow> string" where
  "writeJson JNull = ''null''"
| "writeJson (JBool b) = (if b then ''true'' else ''false'')"
| "writeJson (JNum r) = (if r < 0 then ''-'' else []) @ digitsOf (nat \<lfloor>\<bar>r\<bar>\<rfloor>)"
| "writeJson (JStr s) = s"
| "writeJson (JArr xs) = ''['' @ joinComma (map writeJson xs) @ '']''"
| "writeJson (JObj fs) = ''{'' @ joinComma (map (\<lambda>(k, v). k @ '':'' @ writeJson v) fs) @ ''}''"

definition exampleStringify :: "json list \<Rightarrow> string" where
  "exampleStringify ps = writeJson (JArr ps)"

definition threeParentsFile :: json where
  "threeParentsFile =
     JObj [(''version'', JNum 1), (''updatedAt'', JStr ''2026-01-01T00:00:00.000Z''),
           (''people'', JArr [JObj [(''id'', JStr ''c''), (''firstName'', JStr ''C''),
              (''parentIds'', JArr [JStr ''p1'', JStr ''p2'', JStr ''p3''])]])]"



definition trioExample :: "Person list" where
  "trioExample = [examplePerson ''A'' ''Ann'' [] [], examplePerson ''B'' ''Bob'' [] [],
     examplePerson ''C'' ''Cy'' [''A'', ''B''] []]"

section \<open>Properties of the traversals\<close>

declare removeReverseLinks.simps [simp del]

text \<open>
  Each round of \<open>getDescendantIds\<close> pops one id and pushes exactly the ids it adds to the
  set, so the number of person ids outside the set plus the length of the stack goes down
  by one per round.
\<close>

lemma scanChildren_measure:
  "finite ids \<Longrightarrow> p_id ` set ps \<subseteq> ids \<Longrightarrow>
   card (ids - fst (scanChildren cur ps (d, q))) + length (snd (scanChildren cur ps (d, q)))
     = card (ids - d) + length q"
proof (induction ps arbitrary: d q)
  case Nil
  then show ?case by simp
next
  case (Cons p ps)
  show ?case
  proof (cases "cur \<in> set (parentIds p) \<and> p_id p \<notin> d")
    case True
    have mem: "p_id p \<in> ids - d" using Cons.prems True by auto
    have "card (ids - insert (p_id p) d) + length (q @ [p_id p]) = card (ids - d) + length q"
    proof -
      have "ids - insert (p_id p) d = (ids - d) - {p_id p}" by auto
      moreover have "card ((ids - d) - {p_id p}) = card (ids - d) - 1"
        using mem Cons.prems(1) by (simp add: card_Diff_singleton)
      moreover have "0 < card (ids - d)"
        using mem Cons.prems(1) by (metis card_gt_0_iff empty_iff finite_Diff)
      ultimately show ?thesis by simp
    qed
    moreover have "p_id ` set ps \<subseteq> ids" using Cons.prems by auto
    ultimately show ?thesis using True Cons.IH [OF Cons.prems(1), of "insert (p_id p) d" "q @ [p_id p]"]
      by simp
  next
    case False
    moreover have "p_id ` set ps \<subseteq> ids" using Cons.prems by auto
    ultimately show ?thesis using Cons.IH [OF Cons.prems(1), of d q] by auto
  qed
qed

lemma scanChildren_bounds:
  "d \<subseteq> fst (scanChildren cur ps (d, q)) \<and> fst (scanChildren cur ps (d, q)) \<subseteq> d \<union> p_id ` set ps"
  by (induction ps arbitrary: d q) (auto, blast+)

lemma descendantsLoop_returns:
  assumes "finite ids" "p_id ` set persons \<subseteq> ids"
  shows "card (ids - fst st) + length (snd st) = n \<Longrightarrow>
         \<exists>r. descendantsLoop persons st = Some r \<and> fst st \<subseteq> r \<and> r \<subseteq> fst st \<union> p_id ` set persons"
proof (induction n arbitrary: st rule: less_induct)
  case (less n)
  show ?case
  proof (cases "snd st = []")
    case True
    then show ?thesis by (subst descendantsLoop.simps) simp
  next
    case False
    define st' where "st' = scanChildren (last (snd st)) persons (fst st, butlast (snd st))"
    have "card (ids - fst st') + length (snd st') = card (ids - fst st) + length (butlast (snd st))"
      unfolding st'_def using scanChildren_measure [OF assms] by simp
    then have "card (ids - fst st') + length (snd st') < n"
      using less.prems False by (cases "snd st" rule: rev_cases) auto
    from less.IH [OF this refl]
    obtain r where r: "descendantsLoop persons st' = Some r" "fst st' \<subseteq> r" "r \<subseteq> fst st' \<union> p_id ` set persons"
      by blast
    have b: "fst st \<subseteq> fst st'" "fst st' \<subseteq> fst st \<union> p_id ` set persons"
      unfolding st'_def using scanChildren_bounds [of "fst st" "last (snd st)" persons "butlast (snd st)"] by auto
    have "descendantsLoop persons st = Some r"
      using False r(1) unfolding st'_def by (subst descendantsLoop.simps) simp
    then show ?thesis using r b by blast
  qed
qed

lemma getDescendantIds_returns:
  "\<exists>d. getDescendantIds x persons = Some d \<and> d \<subseteq> p_id ` set persons"
  using descendantsLoop_returns [of "p_id ` set persons" persons "({}, [x])", OF _ _ refl]
  by (auto simp: getDescendantIds_def)


text \<open>The same count, over the ids that occur in some \<open>parentIds\<close>, bounds \<open>getAncestorIds\<close>.\<close>

lemma scanParents_measure:
  "finite ids \<Longrightarrow> set pids \<subseteq> ids \<Longrightarrow>
   card (ids - fst (scanParents pids (a, q))) + length (snd (scanParents pids (a, q)))
     = card (ids - a) + length q"
proof (induction pids arbitrary: a q)
  case Nil
  then show ?case by simp
next
  case (Cons pid pids)
  show ?case
  proof (cases "pid \<notin> a")
    case True
    have mem: "pid \<in> ids - a" using Cons.prems True by auto
    have "ids - insert pid a = (ids - a) - {pid}" by auto
    moreover have "card ((ids - a) - {pid}) = card (ids - a) - 1"
      using mem Cons.prems(1) by (simp add: card_Diff_singleton)
    moreover have "0 < card (ids - a)"
      using mem Cons.prems(1) by (metis card_gt_0_iff empty_iff finite_Diff)
    ultimately have "card (ids - insert pid a) + length (q @ [pid]) = card (ids - a) + length q"
      by simp
    moreover have "set pids \<subseteq> ids" using Cons.prems by auto
    ultimately show ?thesis
      using True Cons.IH [OF Cons.prems(1), of "insert pid a" "q @ [pid]"] by simp
  next
    case False
    moreover have "set pids \<subseteq> ids" using Cons.prems by auto
    ultimately show ?thesis using Cons.IH [OF Cons.prems(1), of a q] by auto
  qed
qed

lemma scanParents_bounds:
  "a \<subseteq> fst (scanParents pids (a, q)) \<and> fst (scanParents pids (a, q)) \<subseteq> a \<union> set pids"
  by (induction pids arbitrary: a q) (auto, blast+)

lemma find_parentIds_subset:
  "find P persons = Some person \<Longrightarrow> set (parentIds person) \<subseteq> parentIdsOf persons"
proof -
  assume "find P persons = Some person"
  then have "person \<in> set persons" by (auto simp: find_Some_iff)
  then show ?thesis by (auto simp: parentIdsOf_def)
qed

lemma ancestorsLoop_returns:
  "card (parentIdsOf persons - fst st) + length (snd st) = n \<Longrightarrow>
   \<exists>r. ancestorsLoop persons st = Some r \<and> fst st \<subseteq> r \<and> r \<subseteq> fst st \<union> parentIdsOf persons"
proof (induction n arbitrary: st rule: less_induct)
  case (less n)
  have fin: "finite (parentIdsOf persons)" by (simp add: parentIdsOf_def)
  show ?case
  proof (cases "snd st = []")
    case True
    then show ?thesis by (subst ancestorsLoop.simps) simp
  next
    case False
    then have len: "length (butlast (snd st)) < length (snd st)"
      by (cases "snd st" rule: rev_cases) auto
    show ?thesis
    proof (cases "find (\<lambda>p. p_id p = last (snd st)) persons")
      case None
      define st' where "st' = (fst st, butlast (snd st))"
      have "card (parentIdsOf persons - fst st') + length (snd st') < n"
        using less.prems len by (simp add: st'_def)
      from less.IH [OF this refl]
      obtain r where r: "ancestorsLoop persons st' = Some r" "fst st' \<subseteq> r"
        "r \<subseteq> fst st' \<union> parentIdsOf persons" by blast
      have "ancestorsLoop persons st = Some r"
        using False None r(1) unfolding st'_def by (subst ancestorsLoop.simps) simp
      then show ?thesis using r by (auto simp: st'_def)
    next
      case (Some person)
      define st' where "st' = scanParents (parentIds person) (fst st, butlast (snd st))"
      have sub: "set (parentIds person) \<subseteq> parentIdsOf persons"
        using find_parentIds_subset [OF Some] .
      have "card (parentIdsOf persons - fst st') + length (snd st')
              = card (parentIdsOf persons - fst st) + length (butlast (snd st))"
        unfolding st'_def using scanParents_measure [OF fin sub] by simp
      then have "card (parentIdsOf persons - fst st') + length (snd st') < n"
        using less.prems len by simp
      from less.IH [OF this refl]
      obtain r where r: "ancestorsLoop persons st' = Some r" "fst st' \<subseteq> r"
        "r \<subseteq> fst st' \<union> parentIdsOf persons" by blast
      have b: "fst st \<subseteq> fst st'" "fst st' \<subseteq> fst st \<union> parentIdsOf persons"
        unfolding st'_def
        using scanParents_bounds [of "fst st" "parentIds person" "butlast (snd st)"] sub by auto
      have "ancestorsLoop persons st = Some r"
        using False Some r(1) unfolding st'_def by (subst ancestorsLoop.simps) simp
      then show ?thesis using r b by blast
    qed
  qed
qed

lemma getAncestorIds_returns:
  "\<exists>a. getAncestorIds x persons = Some a \<and> a \<subseteq> parentIdsOf persons"
  using ancestorsLoop_returns [of persons "({}, [x])", OF refl]
  by (auto simp: getAncestorIds_def)


text \<open>
  Claim C1. For every list of persons and all ids \<open>x\<close> and \<open>y\<close>, \<open>wouldCreateCycle x y\<close>
  returns, and it returns true if and only if \<open>y = x\<close> or \<open>y\<close> is a member of the set that
  \<open>getDescendantIds x\<close> returns.
\<close>

theorem wouldCreateCycle_iff_descendant_or_self:
  "\<exists>d. getDescendantIds x persons = Some d \<and>
       wouldCreateCycle x y persons = Some (y = x \<or> y \<in> d)"
proof -
  obtain d where "getDescendantIds x persons = Some d"
    using getDescendantIds_returns by blast
  then show ?thesis by (auto simp: wouldCreateCycle_def)
qed

text \<open>
  Claim C9. For every finite list of persons, cyclic or not, \<open>getDescendantIds\<close> and
  \<open>getAncestorIds\<close> leave their loops and return a finite set: the descendants are ids of
  persons of the list, the ancestors are ids listed in some \<open>parentIds\<close>.
\<close>

theorem traversals_terminate:
  "(\<exists>d. getDescendantIds x persons = Some d \<and> finite d \<and> d \<subseteq> p_id ` set persons) \<and>
   (\<exists>a. getAncestorIds x persons = Some a \<and> finite a \<and> a \<subseteq> parentIdsOf persons)"
proof -
  obtain d where d: "getDescendantIds x persons = Some d" "d \<subseteq> p_id ` set persons"
    using getDescendantIds_returns by blast
  obtain a where a: "getAncestorIds x persons = Some a" "a \<subseteq> parentIdsOf persons"
    using getAncestorIds_returns by blast
  have "finite (p_id ` set persons)" by simp
  then have "finite d" using d(2) by (rule rev_finite_subset)
  moreover have "finite (parentIdsOf persons)" by (simp add: parentIdsOf_def)
  then have "finite a" using a(2) by (rule rev_finite_subset)
  ultimately show ?thesis using d a by blast
qed

section \<open>Properties of the date check\<close>

text \<open>
  Claim C4, as stated, fails: for a year-only birth 1950 and a full death date 1949-01-01
  \<open>validateBirthDeath\<close> reports an error. \<open>comparePartialDates\<close> compares the full dates
  only when both sides have one, and otherwise falls back to the years when both sides have
  a year, which a full date always has.
\<close>

theorem validateBirthDeath_mixed_precision_counterexample:
  "validateBirthDeath (Some \<lparr>year = Some 1950, date = None\<rparr>)
     (Some \<lparr>year = Some 1949, date = Some ''1949-01-01''\<rparr>) \<noteq> None"
  by (simp add: validateBirthDeath_def truthy_def compareYears_def)

text \<open>
  Claim C4, amended. When the birth date is year-only and the death date is a full
  calendar date, the two are compared by year: \<open>validateBirthDeath\<close> reports
  "Birth date must be before or equal to death date" exactly when the birth year is greater
  than the year of the death date, and reports no error otherwise.
\<close>

theorem validateBirthDeath_year_fallback:
  "validateBirthDeath (Some \<lparr>year = Some y1, date = None\<rparr>) (Some \<lparr>year = Some y2, date = Some d\<rparr>)
     = (if y2 < y1 then Some ''Birth date must be before or equal to death date'' else None)"
  by (simp add: validateBirthDeath_def truthy_def compareYears_def)

theorem validateBirthDeath_year_fallback_witness:
  "validateBirthDeath (Some \<lparr>year = Some 1950, date = None\<rparr>)
     (Some \<lparr>year = Some 1949, date = Some ''1949-01-01''\<rparr>)
     = Some ''Birth date must be before or equal to death date'' \<and>
   validateBirthDeath (Some \<lparr>year = Some 1949, date = None\<rparr>)
     (Some \<lparr>year = Some 1950, date = Some ''1950-01-01''\<rparr>) = None"
  using validateBirthDeath_year_fallback [of 1950 1949 "''1949-01-01''"]
    validateBirthDeath_year_fallback [of 1949 1950 "''1950-01-01''"]
  by simp

section \<open>Properties of the orchestrator\<close>

text \<open>What \<open>findIndex\<close> returns.\<close>

lemma findIndex_Some:
  "findIndex P xs = Some i \<Longrightarrow> i < length xs \<and> P (xs ! i) \<and> (\<forall>j<i. \<not> P (xs ! j))"
proof (induction xs arbitrary: i)
  case Nil
  then show ?case by simp
next
  case (Cons x xs)
  show ?case
  proof (cases "P x")
    case True
    then show ?thesis using Cons.prems by auto
  next
    case False
    then obtain k where k: "findIndex P xs = Some k" "i = Suc k"
      using Cons.prems by auto
    from Cons.IH [OF k(1)] False show ?thesis
      by (auto simp: k(2) less_Suc_eq_0_disj)
  qed
qed


lemma atMostTwoParents_update:
  "atMostTwoParents xs \<Longrightarrow> length (parentIds v) \<le> 2 \<Longrightarrow> atMostTwoParents (xs[i := v])"
  unfolding atMostTwoParents_def using set_update_subset_insert [of xs i v] by auto

lemma atMostTwoParents_nth:
  "atMostTwoParents xs \<Longrightarrow> i < length xs \<Longrightarrow> length (parentIds (xs ! i)) \<le> 2"
  unfolding atMostTwoParents_def by simp

lemma atMostTwoParents_upsertPerson:
  "atMostTwoParents xs \<Longrightarrow> length (parentIds person) \<le> 2 \<Longrightarrow> atMostTwoParents (upsertPerson person xs)"
  by (auto simp: upsertPerson_def atMostTwoParents_update split: option.splits)
     (auto simp: atMostTwoParents_def)

lemma atMostTwoParents_linkParentStep:
  "atMostTwoParents xs \<Longrightarrow> atMostTwoParents (linkParentStep person ctx xs)"
  by (auto simp: linkParentStep_def Let_def split: option.splits intro!: atMostTwoParents_update)

lemma atMostTwoParents_linkSiblingStep:
  "atMostTwoParents xs \<Longrightarrow> atMostTwoParents (linkSiblingStep person ctx xs)"
  by (auto simp: linkSiblingStep_def Let_def split: option.splits
      dest!: findIndex_Some intro!: atMostTwoParents_update atMostTwoParents_nth)

lemma atMostTwoParents_addReverseLinks:
  "atMostTwoParents xs \<Longrightarrow> atMostTwoParents (addReverseLinks person sibs xs)"
proof (induction sibs arbitrary: xs)
  case Nil
  then show ?case by simp
next
  case (Cons s sibs)
  have "atMostTwoParents (case findIndex (\<lambda>p. p_id p = s) xs of
          None \<Rightarrow> xs
        | Some sibIdx \<Rightarrow>
            (if p_id person \<notin> set (siblingIds (xs ! sibIdx))
             then xs[sibIdx := (xs ! sibIdx)\<lparr>siblingIds := siblingIds (xs ! sibIdx) @ [p_id person]\<rparr>]
             else xs))"
    using Cons.prems
    by (auto split: option.splits dest!: findIndex_Some intro!: atMostTwoParents_update atMostTwoParents_nth)
  from Cons.IH [OF this] show ?case by simp
qed

lemma atMostTwoParents_removeReverseLinks:
  "atMostTwoParents xs \<Longrightarrow> atMostTwoParents (removeReverseLinks i person current xs)"
proof (induction i person current xs rule: removeReverseLinks.induct)
  case (1 i person current newPeople)
  show ?case
  proof (cases "i < length newPeople")
    case False
    then show ?thesis using "1.prems" by (subst removeReverseLinks.simps) simp
  next
    case True
    note lt = True
    define other where "other = newPeople ! i"
    show ?thesis
    proof (cases "p_id other = p_id person")
      case True
      then show ?thesis using lt "1.IH"(1) [OF lt other_def True "1.prems"]
        by (subst removeReverseLinks.simps) (simp add: other_def Let_def)
    next
      case False
      note ne = False
      show ?thesis
      proof (cases "p_id person \<in> set (siblingIds other) \<and> p_id other \<notin> set (siblingIds current)")
        case False
        then show ?thesis using lt ne "1.IH"(4) [OF lt other_def ne False "1.prems"]
          by (subst removeReverseLinks.simps) (auto simp: other_def Let_def)
      next
        case True
        show ?thesis
        proof (cases "findIndex (\<lambda>p. p_id p = p_id other) newPeople")
          case None
          then show ?thesis using lt ne True "1.IH"(2) [OF lt other_def ne True None "1.prems"]
            by (subst removeReverseLinks.simps) (auto simp: other_def Let_def)
        next
          case (Some k)
          have "atMostTwoParents (newPeople[k := (newPeople ! k)
                  \<lparr>siblingIds := filter (\<lambda>sid. sid \<noteq> p_id person) (siblingIds (newPeople ! k))\<rparr>])"
            using "1.prems" findIndex_Some [OF Some]
            by (auto intro!: atMostTwoParents_update atMostTwoParents_nth)
          from "1.IH"(3) [OF lt other_def ne True Some this] show ?thesis
            using lt ne True Some by (subst removeReverseLinks.simps) (auto simp: other_def Let_def)
        qed
      qed
    qed
  qed
qed

lemma atMostTwoParents_syncSiblings:
  "atMostTwoParents xs \<Longrightarrow> atMostTwoParents (syncSiblings person xs)"
  by (auto simp: syncSiblings_def Let_def split: option.splits
      intro!: atMostTwoParents_removeReverseLinks atMostTwoParents_addReverseLinks)

lemma atMostTwoParents_delete:
  "atMostTwoParents (people d) \<Longrightarrow> atMostTwoParents (people (handleDeletePerson now x d))"
  by (auto simp: handleDeletePerson_def mutate_def atMostTwoParents_def intro: order_trans [OF length_filter_le])

lemma handleParentToggle_length: "length prev \<le> 2 \<Longrightarrow> length (handleParentToggle i prev) \<le> 2"
  by (auto simp: handleParentToggle_def intro: order_trans [OF length_filter_le])


lemma filter_neq_removeAll: "filter (\<lambda>y. y \<noteq> x) xs = removeAll x xs"
  by (induction xs) auto

text \<open>
  Claim C3. After the delete operation for the id \<open>x\<close>, no person with id \<open>x\<close> remains and
  no remaining person lists \<open>x\<close> in \<open>parentIds\<close> or \<open>siblingIds\<close>. The remaining persons
  are the persons with another id, in their order; each keeps its id, names, dates, photo
  and notes, and its \<open>parentIds\<close> and \<open>siblingIds\<close> are the old arrays without \<open>x\<close>: a
  child of \<open>x\<close> loses that parent and gets no other.
\<close>

theorem delete_cascade:
  "(\<forall>p \<in> set (people (handleDeletePerson now x d)).
      p_id p \<noteq> x \<and> x \<notin> set (parentIds p) \<and> x \<notin> set (siblingIds p)) \<and>
   list_all2 (\<lambda>q p. p_id q = p_id p \<and> firstName q = firstName p \<and> lastName q = lastName p \<and>
                birth q = birth p \<and> death q = death p \<and> photoDataUrl q = photoDataUrl p \<and>
                p_notes q = p_notes p \<and>
                parentIds q = removeAll x (parentIds p) \<and> siblingIds q = removeAll x (siblingIds p))
     (people (handleDeletePerson now x d)) (filter (\<lambda>p. p_id p \<noteq> x) (people d))"
  by (auto simp: handleDeletePerson_def mutate_def list_all2_map1 filter_neq_removeAll
        intro!: list_all2_refl)

theorem delete_cascade_witness:
  "people (handleDeletePerson ''t1'' ''X''
     \<lparr>version = 1, updatedAt = ''t0'',
      people = [examplePerson ''X'' ''Xa'' [] [''S''], examplePerson ''C'' ''Cy'' [''X'', ''Y''] [],
                examplePerson ''S'' ''Sam'' [] [''X'']]\<rparr>)
     = [examplePerson ''C'' ''Cy'' [''Y''] [], examplePerson ''S'' ''Sam'' [] []] \<and>
   ''X'' \<notin> set (parentIds (examplePerson ''C'' ''Cy'' [''Y''] [])) \<and>
   ''X'' \<notin> set (siblingIds (examplePerson ''S'' ''Sam'' [] []))"
  using delete_cascade [of "''t1''" "''X''"
     "\<lparr>version = 1, updatedAt = ''t0'',
      people = [examplePerson ''X'' ''Xa'' [] [''S''], examplePerson ''C'' ''Cy'' [''X'', ''Y''] [],
                examplePerson ''S'' ''Sam'' [] [''X'']]\<rparr>"]
  by (simp add: handleDeletePerson_def mutate_def examplePerson_def)

text \<open>
  Claim C7, as stated, fails: \<open>validateFamilyData\<close> checks that \<open>parentIds\<close> is an array
  and nothing about its length, so importing a file whose person has three parents puts
  that person into the data. The state after the import holds the person object of the
  file (with the \<open>siblingIds\<close> that the migration adds), and its declared fields are
  those of a person with three parents.
\<close>

theorem import_three_parents_counterexample:
  "handleImport exampleStringify threeParentsFile (initialState exampleStringify ''t0'')
     = Some \<lparr>data = \<lparr>version = 1, updatedAt = ''2026-01-01T00:00:00.000Z'',
                        people = [JObj [(''id'', JStr ''c''), (''firstName'', JStr ''C''),
                                   (''parentIds'', JArr [JStr ''p1'', JStr ''p2'', JStr ''p3'']),
                                   (''siblingIds'', JArr [])]]\<rparr>,
              baselineHash = ''[{id:c,firstName:C,parentIds:[p1,p2,p3],siblingIds:[]}]'',
              selectedId = None\<rparr> \<and>
   asPersons [JObj [(''id'', JStr ''c''), (''firstName'', JStr ''C''),
                (''parentIds'', JArr [JStr ''p1'', JStr ''p2'', JStr ''p3'']),
                (''siblingIds'', JArr [])]]
     = Some [examplePerson ''c'' ''C'' [''p1'', ''p2'', ''p3''] []] \<and>
   \<not> atMostTwoParents [examplePerson ''c'' ''C'' [''p1'', ''p2'', ''p3''] []]"
  by (simp add: handleImport_def validateFamilyData_def threeParentsFile_def validatePerson_def
        acceptedData_def asPerson_def requiredProp_def optionalProp_def examplePerson_def
        computeHash_def initialState_def emptyData_def exampleStringify_def atMostTwoParents_def)

text \<open>
  Claim C7, amended. The edits keep the bound: from data in which no person has more than
  two parent ids, saving a person who has at most two parent ids (under any context, the
  link flows included) and deleting a person give data with the same property, and a
  parent toggle of the modal takes a list of at most two ids to a list of at most two ids.
  An import is not checked for the bound.
\<close>

theorem parent_cardinality_preserved_by_edits:
  assumes "atMostTwoParents (people d)"
  shows "(length (parentIds person) \<le> 2 \<longrightarrow> atMostTwoParents (people (handleSavePerson now person ctx d))) \<and>
         atMostTwoParents (people (handleDeletePerson now x d)) \<and>
         (length prev \<le> 2 \<longrightarrow> length (handleParentToggle i prev) \<le> 2)"
  using assms
  by (simp add: handleSavePerson_def mutate_def atMostTwoParents_syncSiblings
      atMostTwoParents_linkSiblingStep atMostTwoParents_linkParentStep atMostTwoParents_upsertPerson
      atMostTwoParents_delete handleParentToggle_length)

theorem parent_cardinality_preserved_by_edits_witness:
  "map (\<lambda>p. length (parentIds p))
     [examplePerson ''k'' ''Kid'' [''m''] [], examplePerson ''m'' ''Mum'' [] []] = [1, 0] \<and>
   length (parentIds (examplePerson ''f'' ''Dad'' [] [])) = 0 \<and>
   map (\<lambda>p. length (parentIds p))
     (people (handleSavePerson ''t1'' (examplePerson ''f'' ''Dad'' [] [])
         (Some \<lparr>linkAsParentOf = Some ''k'', presetParentIds = None, linkAsSiblingOf = None\<rparr>)
         \<lparr>version = 1, updatedAt = ''t0'',
          people = [examplePerson ''k'' ''Kid'' [''m''] [], examplePerson ''m'' ''Mum'' [] []]\<rparr>)) = [2, 0, 0] \<and>
   map (\<lambda>p. length (parentIds p))
     (people (handleDeletePerson ''t1'' ''m''
         \<lparr>version = 1, updatedAt = ''t0'',
          people = [examplePerson ''k'' ''Kid'' [''m''] [], examplePerson ''m'' ''Mum'' [] []]\<rparr>)) = [0] \<and>
   length (handleParentToggle ''c'' [''a'', ''b'']) = 2"
proof -
  have h: "atMostTwoParents (people \<lparr>version = 1, updatedAt = ''t0'',
          people = [examplePerson ''k'' ''Kid'' [''m''] [], examplePerson ''m'' ''Mum'' [] []]\<rparr>)"
    by (simp add: atMostTwoParents_def examplePerson_def)
  show ?thesis
    using parent_cardinality_preserved_by_edits [OF h, of "examplePerson ''f'' ''Dad'' [] []" "''t1''"
      "Some \<lparr>linkAsParentOf = Some ''k'', presetParentIds = None, linkAsSiblingOf = None\<rparr>" "''m''"
      "[''a'', ''b'']" "''c''"]
    by (simp add: handleSavePerson_def mutate_def syncSiblings_def linkSiblingStep_def linkParentStep_def
       upsertPerson_def truthyField_def examplePerson_def removeReverseLinks.simps Let_def
       handleDeletePerson_def handleParentToggle_def)
qed

text \<open>
  The form of the modal starts from a list of at most two parents in every way of opening
  it on data within the bound.
\<close>

lemma initialParentIds_bound:
  assumes "atMostTwoParents persons"
  shows "(person \<in> set persons \<longrightarrow> length (initialParentIds (Some person) ctx) \<le> 2) \<and>
         length (initialParentIds None None) \<le> 2 \<and>
         length (initialParentIds None (Some (handleCreateParent i))) \<le> 2 \<and>
         length (initialParentIds None (Some (handleAddChild i))) \<le> 2 \<and>
         (handleAddSibling i persons = Some c \<longrightarrow> length (initialParentIds None (Some c)) \<le> 2)"
  using assms
  by (auto simp: initialParentIds_def handleCreateParent_def handleAddChild_def
        handleAddSibling_def atMostTwoParents_def find_Some_iff split: option.splits if_splits)

section \<open>Sibling symmetry\<close>









lemma addLink_id [simp]: "p_id (addLink pid p) = p_id p"
  by (simp add: addLink_def)

lemma addLink_sibs [simp]: "set (siblingIds (addLink pid p)) = insert pid (set (siblingIds p))"
  by (auto simp: addLink_def)

lemma addLink_idem [simp]: "addLink pid (addLink pid p) = addLink pid p"
  by (simp add: addLink_def)


lemma dropLink_id [simp]: "p_id (dropLink pid current p) = p_id p"
  by (simp add: dropLink_def)





















section \<open>Properties of the generation assignment\<close>
















section \<open>Properties of the layout: two parents and one child\<close>

text \<open>
  The layout of two parentless persons \<open>x\<close>, \<open>y\<close> and their child \<open>c\<close>, pass by pass.
  Pass 1 puts the parents at -115 and 115 in the order of the sort and the child at 0;
  pass 2 centres both parents over the child at 0 and the overlap sweep pushes the second
  to 230; pass 3 moves the child to 0.3 times its position plus 0.7 times 115.
\<close>

lemma sortBy_two: "sortBy cmp [x, y] = (if cmp x y \<le> 0 then [x, y] else [y, x])"
  by (simp add: sortBy_def)

lemma sortBy_one: "sortBy cmp [x] = [x]"
  by (simp add: sortBy_def)

lemma step_groups:
  "groupByGeneration [(x, 0), (y, 0), (c, Suc 0)] = [(0, [x, y]), (Suc 0, [c])]"
  by (simp add: groupByGeneration_def)

lemma step_keys: "layerKeysOf [(0, [x, y]), (Suc 0, [c])] = [0, Suc 0]"
  by (simp add: layerKeysOf_def)

lemma step_layer0:
  assumes "f \<noteq> s"
  shows "centerGroup [f, s] (placeEvenly [f, s] 0 Map.empty) = [f \<mapsto> - 115, s \<mapsto> 115]"
  using assms by (auto simp: centerGroup_def NODE_W_def GAP_H_def Let_def fun_eq_iff)

lemma step_layer1:
  assumes "f \<noteq> s" "c \<noteq> f" "c \<noteq> s"
  shows "centerGroup [c] (placeEvenly [c] 0 [f \<mapsto> - 115, s \<mapsto> 115]) = [f \<mapsto> - 115, s \<mapsto> 115, c \<mapsto> 0]"
  using assms by (auto simp: centerGroup_def NODE_W_def GAP_H_def Let_def fun_eq_iff)

lemma step_pass1:
  assumes fs: "f \<noteq> s" "c \<noteq> f" "c \<noteq> s"
    and srt: "sortBy (pass1Compare lc ps Map.empty) [x, y] = [f, s]"
  shows "pass1 lc ps [0, Suc 0] (map_of [(0, [x, y]), (Suc 0, [c])], Map.empty)
    = ([0 \<mapsto> [f, s], Suc 0 \<mapsto> [c]], [f \<mapsto> - 115, s \<mapsto> 115, c \<mapsto> 0])"
proof -
  define G0 where "G0 = map_of [(0::nat, [x, y]), (Suc 0, [c])]"
  have G0_0: "the (G0 0) = [x, y]" by (simp add: G0_def)
  have G0_1: "the ((G0(0 \<mapsto> [f, s])) (Suc 0)) = [c]" by (simp add: G0_def)
  have g: "G0(0 \<mapsto> [f, s], Suc 0 \<mapsto> [c]) = [0 \<mapsto> [f, s], Suc 0 \<mapsto> [c]]"
    by (auto simp: fun_eq_iff G0_def)
  have e1: "pass1 lc ps [0, Suc 0] (G0, Map.empty)
      = pass1 lc ps [Suc 0] (G0(0 \<mapsto> [f, s]), [f \<mapsto> - 115, s \<mapsto> 115])"
    by (simp only: pass1.simps Let_def G0_0 srt step_layer0 [OF fs(1)])
  have e2: "pass1 lc ps [Suc 0] (G0(0 \<mapsto> [f, s]), [f \<mapsto> - 115, s \<mapsto> 115])
      = pass1 lc ps [] (G0(0 \<mapsto> [f, s], Suc 0 \<mapsto> [c]), [f \<mapsto> - 115, s \<mapsto> 115, c \<mapsto> 0])"
    by (simp only: pass1.simps Let_def G0_1 sortBy_one step_layer1 [OF fs])
  show ?thesis
    unfolding G0_def [symmetric] e1 e2 g by (simp only: pass1.simps)
qed

lemma step_pass2:
  assumes fs: "f \<noteq> s" "c \<noteq> f" "c \<noteq> s"
    and ch: "ch f = Some [c]" "ch s = Some [c]" "ch c = None"
  shows "pass2 ch [0 \<mapsto> [f, s], Suc 0 \<mapsto> [c]] [Suc 0, 0] [f \<mapsto> - 115, s \<mapsto> 115, c \<mapsto> 0]
    = [f \<mapsto> 0, s \<mapsto> 230, c \<mapsto> 0]"
proof -
  let ?X1 = "[f \<mapsto> - 115, s \<mapsto> 115, c \<mapsto> (0::real)]"
  have a: "resolveOverlaps [c] (centerOverChildren ch [c] ?X1) = ?X1"
    using ch by (simp add: resolveOverlaps_def)
  have b: "centerOverChildren ch [f, s] ?X1 = [f \<mapsto> 0, s \<mapsto> 0, c \<mapsto> 0]"
    using ch fs by (auto simp: fun_eq_iff)
  have c: "resolveOverlaps [f, s] [f \<mapsto> 0, s \<mapsto> 0, c \<mapsto> 0] = [f \<mapsto> 0, s \<mapsto> 230, c \<mapsto> 0]"
    using fs by (auto simp: resolveOverlaps_def sortBy_two NODE_W_def GAP_H_def fun_eq_iff)
  have g0: "the ([0 \<mapsto> [f, s], Suc 0 \<mapsto> [c]] 0) = [f, s]"
    and g1: "the ([0 \<mapsto> [f, s], Suc 0 \<mapsto> [c]] (Suc 0)) = [c]" by simp_all
  show ?thesis
    by (simp only: pass2.simps Let_def g0 g1 a b c)
qed

lemma step_pass3:
  assumes fs: "f \<noteq> s" "c \<noteq> f" "c \<noteq> s"
    and nop: "parentIds (the (personMapOf ps f)) = []" "parentIds (the (personMapOf ps s)) = []"
    and pc: "parentIds (the (personMapOf ps c)) = [u, v]"
    and uv: "(u = f \<and> v = s) \<or> (u = s \<and> v = f)"
  shows "pass3 ps [0 \<mapsto> [f, s], Suc 0 \<mapsto> [c]] [0, Suc 0] [f \<mapsto> 0, s \<mapsto> 230, c \<mapsto> 0]
    = [f \<mapsto> 0, s \<mapsto> 230, c \<mapsto> 161 / 2]"
proof -
  let ?X2 = "[f \<mapsto> 0, s \<mapsto> 230, c \<mapsto> (0::real)]"
  have a: "pullTowardParents ps [f, s] ?X2 = ?X2"
    by (simp add: nop)
  have b: "resolveOverlaps [f, s] ?X2 = ?X2"
    using fs by (auto simp: resolveOverlaps_def sortBy_two NODE_W_def GAP_H_def fun_eq_iff)
  have avg: "avgX [u, v] ?X2 = 115"
    using uv fs by (auto simp: avgX_def)
  have c: "pullTowardParents ps [c] ?X2 = [f \<mapsto> 0, s \<mapsto> 230, c \<mapsto> 161 / 2]"
  proof -
    have vp: "filter (\<lambda>pid. ?X2 pid \<noteq> None) (parentIds (the (personMapOf ps c))) = [u, v]"
      using uv fs pc by auto
    have cur: "the (?X2 c) = 0" by simp
    show ?thesis
      by (simp only: pullTowardParents.simps Let_def vp avg cur) (auto simp: fun_eq_iff)
  qed
  have d: "resolveOverlaps [c] [f \<mapsto> 0, s \<mapsto> 230, c \<mapsto> 161 / 2] = [f \<mapsto> 0, s \<mapsto> 230, c \<mapsto> 161 / 2]"
    by (simp add: resolveOverlaps_def)
  have g0: "the ([0 \<mapsto> [f, s], Suc 0 \<mapsto> [c]] 0) = [f, s]"
    and g1: "the ([0 \<mapsto> [f, s], Suc 0 \<mapsto> [c]] (Suc 0)) = [c]" by simp_all
  show ?thesis
    by (simp only: pass3.simps Let_def g0 g1 a b c d)
qed

lemma xPositions_three:
  assumes xy: "x \<noteq> y" "c \<noteq> x" "c \<noteq> y"
    and nop: "parentIds (the (personMapOf ps x)) = []" "parentIds (the (personMapOf ps y)) = []"
    and pc: "parentIds (the (personMapOf ps c)) = [u, v]"
    and uv: "(u = x \<and> v = y) \<or> (u = y \<and> v = x)"
    and ch: "childrenOfMap ps x = Some [c]" "childrenOfMap ps y = Some [c]" "childrenOfMap ps c = None"
  shows "xPositions lc ps [(x, 0), (y, 0), (c, Suc 0)] = [x \<mapsto> 0, y \<mapsto> 230, c \<mapsto> 161 / 2] \<or>
         xPositions lc ps [(x, 0), (y, 0), (c, Suc 0)] = [y \<mapsto> 0, x \<mapsto> 230, c \<mapsto> 161 / 2]"
proof (cases "pass1Compare lc ps Map.empty x y \<le> 0")
  case True
  then have srt: "sortBy (pass1Compare lc ps Map.empty) [x, y] = [x, y]" by (simp add: sortBy_two)
  have "xPositions lc ps [(x, 0), (y, 0), (c, Suc 0)] = [x \<mapsto> 0, y \<mapsto> 230, c \<mapsto> 161 / 2]"
    by (simp add: xPositions_def step_groups step_keys step_pass1 [OF xy srt]
          step_pass2 [OF xy ch] step_pass3 [OF xy nop pc uv]
        del: pass1.simps pass2.simps pass3.simps fun_upd_apply map_of.simps)
  then show ?thesis by simp
next
  case False
  then have srt: "sortBy (pass1Compare lc ps Map.empty) [x, y] = [y, x]" by (simp add: sortBy_two)
  have yx: "y \<noteq> x" "c \<noteq> y" "c \<noteq> x" using xy by auto
  have uv': "(u = y \<and> v = x) \<or> (u = x \<and> v = y)" using uv by auto
  have "xPositions lc ps [(x, 0), (y, 0), (c, Suc 0)] = [y \<mapsto> 0, x \<mapsto> 230, c \<mapsto> 161 / 2]"
    by (simp add: xPositions_def step_groups step_keys step_pass1 [OF yx srt]
          step_pass2 [OF yx ch(2,1,3)] step_pass3 [OF yx nop(2,1) pc uv']
        del: pass1.simps pass2.simps pass3.simps fun_upd_apply map_of.simps)
  then show ?thesis by simp
qed


lemma layout_three:
  assumes xy: "x \<noteq> y" "c \<noteq> x" "c \<noteq> y"
    and nop: "parentIds (the (personMapOf ps x)) = []" "parentIds (the (personMapOf ps y)) = []"
    and pc: "parentIds (the (personMapOf ps c)) = [u, v]"
    and uv: "(u = x \<and> v = y) \<or> (u = y \<and> v = x)"
    and ch: "childrenOfMap ps x = Some [c]" "childrenOfMap ps y = Some [c]" "childrenOfMap ps c = None"
    and gens: "assignGenerations ps = Some [(x, 0), (y, 0), (c, Suc 0)]"
    and ne: "ps \<noteq> []"
  shows "\<exists>L. computeLayout lc ps = Some L \<and> edges L = edgesOf ps \<and>
           positions L c = Some \<lparr>pos_x = 161 / 2, pos_y = 140\<rparr> \<and>
           ((positions L x = Some \<lparr>pos_x = 0, pos_y = 0\<rparr> \<and> positions L y = Some \<lparr>pos_x = 230, pos_y = 0\<rparr>) \<or>
            (positions L x = Some \<lparr>pos_x = 230, pos_y = 0\<rparr> \<and> positions L y = Some \<lparr>pos_x = 0, pos_y = 0\<rparr>))"
proof -
  define X where "X = xPositions lc ps [(x, 0), (y, 0), (c, Suc 0)]"
  have L: "computeLayout lc ps = Some \<lparr>positions =
             (\<lambda>i. case X i of None \<Rightarrow> None
                   | Some x' \<Rightarrow> Some \<lparr>pos_x = x',
                        pos_y = real (case map_of [(x, 0), (y, 0), (c, Suc 0)] i of None \<Rightarrow> 0 | Some g \<Rightarrow> g) * GAP_V\<rparr>),
           edges = edgesOf ps\<rparr>"
    using ne gens by (simp add: computeLayout_def X_def Let_def del: map_of.simps)
  from xPositions_three [OF xy nop pc uv ch, of lc]
  have "X = [x \<mapsto> 0, y \<mapsto> 230, c \<mapsto> 161 / 2] \<or> X = [y \<mapsto> 0, x \<mapsto> 230, c \<mapsto> 161 / 2]"
    by (simp add: X_def)
  then show ?thesis
  proof
    assume "X = [x \<mapsto> 0, y \<mapsto> 230, c \<mapsto> 161 / 2]"
    then show ?thesis using L xy by (simp add: GAP_V_def)
  next
    assume "X = [y \<mapsto> 0, x \<mapsto> 230, c \<mapsto> 161 / 2]"
    then show ?thesis using L xy by (simp add: GAP_V_def)
  qed
qed

lemma layout_three_perm:
  assumes ids: "p_id a \<noteq> p_id b" "p_id a \<noteq> p_id c" "p_id b \<noteq> p_id c"
    and pa: "parentIds a = []" and pb: "parentIds b = []" and pc: "parentIds c = [p_id a, p_id b]"
    and ps: "ps = [a, b, c] \<or> ps = [a, c, b] \<or> ps = [b, a, c] \<or> ps = [b, c, a] \<or> ps = [c, a, b] \<or> ps = [c, b, a]"
  shows "ps \<noteq> [] \<and> personMapOf ps (p_id a) = Some a \<and> personMapOf ps (p_id b) = Some b \<and>
     personMapOf ps (p_id c) = Some c \<and>
     childrenOfMap ps (p_id a) = Some [p_id c] \<and> childrenOfMap ps (p_id b) = Some [p_id c] \<and>
     childrenOfMap ps (p_id c) = None \<and>
     (assignGenerations ps = Some [(p_id a, 0), (p_id b, 0), (p_id c, Suc 0)] \<or>
      assignGenerations ps = Some [(p_id b, 0), (p_id a, 0), (p_id c, Suc 0)]) \<and>
     map (\<lambda>e. (source e, target e)) (edgesOf ps) = [(p_id a, p_id c), (p_id b, p_id c)]"
  using ps ids ids [symmetric] pa pb pc
  by (elim disjE)
     (simp_all add: assignGenerations_def personMapOf_def idSetOf_def childrenOfMap_def edgesOf_def)


text \<open>
  Claim C5, as stated, fails in its position part: with parents Ann and Bob and child Cy,
  the parents end at x = 0 and x = 230 and the child at 80.5, not at the midpoint 115.
\<close>

theorem two_parent_midpoint_counterexample:
  "map_option (\<lambda>L. map (\<lambda>i. map_option pos_x (positions L i)) [''A'', ''B'', ''C''])
      (computeLayout codeUnitCompare trioExample) = Some [Some 0, Some 230, Some (161 / 2)] \<and>
   (161 / 2 :: real) \<noteq> (0 + 230) / 2"
proof -
  have "map_option (\<lambda>L. map (\<lambda>i. map_option pos_x (positions L i)) [''A'', ''B'', ''C''])
      (computeLayout codeUnitCompare trioExample) = Some [Some 0, Some 230, Some (161 / 2)]"
    unfolding trioExample_def by code_simp
  then show ?thesis by simp
qed

text \<open>
  Claim C5, amended. For three persons with distinct ids, A and B without parents and C
  with \<open>parentIds = [A, B]\<close>, given in any order and under any comparator for the names,
  \<open>computeLayout\<close> assigns C generation 1 (y = 140), puts one parent at x = 0 and the
  other at x = 230, puts C at x = 80.5, which is 0.7 times the parents' midpoint 115, and
  emits exactly the edges A to C and B to C.
\<close>

theorem two_parent_layout:
  assumes ids: "p_id a \<noteq> p_id b" "p_id a \<noteq> p_id c" "p_id b \<noteq> p_id c"
    and pa: "parentIds a = []" and pb: "parentIds b = []" and pc: "parentIds c = [p_id a, p_id b]"
    and ps: "ps = [a, b, c] \<or> ps = [a, c, b] \<or> ps = [b, a, c] \<or> ps = [b, c, a] \<or> ps = [c, a, b] \<or> ps = [c, b, a]"
  shows "\<exists>gens L. assignGenerations ps = Some gens \<and> map_of gens (p_id c) = Some 1 \<and>
           computeLayout lc ps = Some L \<and>
           positions L (p_id c) = Some \<lparr>pos_x = 161 / 2, pos_y = 140\<rparr> \<and>
           ((positions L (p_id a) = Some \<lparr>pos_x = 0, pos_y = 0\<rparr> \<and>
             positions L (p_id b) = Some \<lparr>pos_x = 230, pos_y = 0\<rparr>) \<or>
            (positions L (p_id a) = Some \<lparr>pos_x = 230, pos_y = 0\<rparr> \<and>
             positions L (p_id b) = Some \<lparr>pos_x = 0, pos_y = 0\<rparr>)) \<and>
           map (\<lambda>e. (source e, target e)) (edges L) = [(p_id a, p_id c), (p_id b, p_id c)]"
proof -
  note f = layout_three_perm [OF ids pa pb pc ps]
  from f have ne: "ps \<noteq> []" and pm: "personMapOf ps (p_id a) = Some a" "personMapOf ps (p_id b) = Some b"
      "personMapOf ps (p_id c) = Some c"
    and ch: "childrenOfMap ps (p_id a) = Some [p_id c]" "childrenOfMap ps (p_id b) = Some [p_id c]"
      "childrenOfMap ps (p_id c) = None"
    and ed: "map (\<lambda>e. (source e, target e)) (edgesOf ps) = [(p_id a, p_id c), (p_id b, p_id c)]"
    by simp_all
  have cx: "p_id c \<noteq> p_id a" "p_id c \<noteq> p_id b" "p_id b \<noteq> p_id a" using ids by auto
  have nopa: "parentIds (the (personMapOf ps (p_id a))) = []" using pm pa by simp
  have nopb: "parentIds (the (personMapOf ps (p_id b))) = []" using pm pb by simp
  have pcs: "parentIds (the (personMapOf ps (p_id c))) = [p_id a, p_id b]" using pm pc by simp
  from f have "assignGenerations ps = Some [(p_id a, 0), (p_id b, 0), (p_id c, Suc 0)] \<or>
      assignGenerations ps = Some [(p_id b, 0), (p_id a, 0), (p_id c, Suc 0)]" by simp
  then show ?thesis
  proof
    assume g: "assignGenerations ps = Some [(p_id a, 0), (p_id b, 0), (p_id c, Suc 0)]"
    from layout_three [OF ids(1) cx(1,2) nopa nopb pcs _ ch g ne, of lc]
    show ?thesis using g ed cx by auto
  next
    assume g: "assignGenerations ps = Some [(p_id b, 0), (p_id a, 0), (p_id c, Suc 0)]"
    from layout_three [OF cx(3) cx(2,1) nopb nopa pcs _ ch(2,1,3) g ne, of lc]
    show ?thesis using g ed cx by auto
  qed
qed

theorem two_parent_layout_witness:
  "\<exists>gens L. assignGenerations trioExample = Some gens \<and> map_of gens ''C'' = Some 1 \<and>
           computeLayout codeUnitCompare trioExample = Some L \<and>
           positions L ''C'' = Some \<lparr>pos_x = 161 / 2, pos_y = 140\<rparr> \<and>
           ((positions L ''A'' = Some \<lparr>pos_x = 0, pos_y = 0\<rparr> \<and>
             positions L ''B'' = Some \<lparr>pos_x = 230, pos_y = 0\<rparr>) \<or>
            (positions L ''A'' = Some \<lparr>pos_x = 230, pos_y = 0\<rparr> \<and>
             positions L ''B'' = Some \<lparr>pos_x = 0, pos_y = 0\<rparr>)) \<and>
           map (\<lambda>e. (source e, target e)) (edges L) = [(''A'', ''C''), (''B'', ''C'')]"
  using two_parent_layout [of "examplePerson ''A'' ''Ann'' [] []" "examplePerson ''B'' ''Bob'' [] []"
      "examplePerson ''C'' ''Cy'' [''A'', ''B''] []" trioExample codeUnitCompare]
  by (simp add: trioExample_def examplePerson_def)

section \<open>Properties of the layout: the order of the input\<close>




































lemma strLess_irrefl: "\<not> strLess x x"
  by (induction x) auto




text \<open>
  Two persons without parents whose names compare equal keep the order of the input,
  whatever the comparator: the first of the list is put at -115 and the second at 115.
\<close>

lemma same_name_positions:
  assumes "lc (fullName p) (fullName q) = 0" "p_id p \<noteq> p_id q" "parentIds p = []" "parentIds q = []"
  shows "\<exists>L. computeLayout lc [p, q] = Some L \<and> map_option pos_x (positions L (p_id p)) = Some (- 115) \<and>
     map_option pos_x (positions L (p_id q)) = Some 115"
proof -
  have g: "assignGenerations [p, q] = Some [(p_id p, 0), (p_id q, 0)]"
    using assms by (simp add: assignGenerations_def personMapOf_def idSetOf_def)
  have grp: "groupByGeneration [(p_id p, 0), (p_id q, 0)] = [(0, [p_id p, p_id q])]"
    by (simp add: groupByGeneration_def)
  have keys: "layerKeysOf [(0, [p_id p, p_id q])] = [0]" by (simp add: layerKeysOf_def)
  have cmp: "pass1Compare lc [p, q] Map.empty (p_id p) (p_id q) = 0"
    using assms by (simp add: pass1Compare_def personMapOf_def avgX_def)
  have srt: "sortBy (pass1Compare lc [p, q] Map.empty) [p_id p, p_id q] = [p_id p, p_id q]"
    by (simp add: sortBy_def cmp)
  have p1: "pass1 lc [p, q] [0] (map_of [(0, [p_id p, p_id q])], Map.empty)
      = ([0 \<mapsto> [p_id p, p_id q]], [p_id p \<mapsto> - 115, p_id q \<mapsto> 115])"
    using assms(2) by (simp add: srt centerGroup_def NODE_W_def GAP_H_def Let_def)
  have ch: "childrenOfMap [p, q] = Map.empty"
    using assms by (simp add: childrenOfMap_def)
  have p2: "pass2 Map.empty [0 \<mapsto> [p_id p, p_id q]] [0] [p_id p \<mapsto> - 115, p_id q \<mapsto> 115]
      = [p_id p \<mapsto> - 115, p_id q \<mapsto> 115]"
    using assms(2) by (simp add: resolveOverlaps_def sortBy_def NODE_W_def GAP_H_def)
  have p3: "pass3 [p, q] [0 \<mapsto> [p_id p, p_id q]] [0] [p_id p \<mapsto> - 115, p_id q \<mapsto> 115]
      = [p_id p \<mapsto> - 115, p_id q \<mapsto> 115]"
    using assms by (simp add: resolveOverlaps_def sortBy_def NODE_W_def GAP_H_def personMapOf_def)
  have x: "xPositions lc [p, q] [(p_id p, 0), (p_id q, 0)] = [p_id p \<mapsto> - 115, p_id q \<mapsto> 115]"
    by (simp add: xPositions_def grp keys p1 ch p2 p3
        del: pass1.simps pass2.simps pass3.simps fun_upd_apply map_of.simps)
  show ?thesis using assms(2) by (simp add: computeLayout_def g x)
qed




section \<open>Properties of the import\<close>

text \<open>
  Writing a property leaves the other properties as they are, and the property written
  is read back. So every object that \<open>validateFamilyData\<close> accepts is read by
  \<open>acceptedData\<close>, and \<open>handleImport\<close> always gives a state.
\<close>

lemma getProp_setProp_other:
  assumes "k' \<noteq> k"
  shows "getProp (setProp j k v) k' = getProp j k'"
proof (cases j)
  case (JObj fs)
  have "map_of (map (\<lambda>(a, b). if a = k then (a, v) else (a, b)) fs) k' = map_of fs k'"
    using assms by (induction fs) auto
  then show ?thesis using JObj assms by (auto simp: map_of_append map_add_def split: option.splits)
qed simp_all

lemma getProp_setProp_same:
  assumes "isObject j" "\<not> isArray (Some j)"
  shows "getProp (setProp j k v) k = Some v"
proof (cases j)
  case (JObj fs)
  have "k \<in> fst ` set fs \<Longrightarrow> map_of (map (\<lambda>(a, b). if a = k then (a, v) else (a, b)) fs) k = Some v"
    by (induction fs) auto
  moreover have "k \<notin> fst ` set fs \<Longrightarrow> map_of fs k = None"
    by (simp add: map_of_eq_None_iff)
  ultimately show ?thesis using JObj by (auto simp: map_of_append map_add_def)
qed (use assms in simp_all)

lemma validateFamilyData_accepted:
  assumes "validateFamilyData obj = Some obj'"
  shows "\<exists>d. acceptedData obj' = Some d"
proof -
  from assms obtain ps ps' where o: "isObject obj" and v: "getProp obj ''version'' = Some (JNum 1)"
    and u: "isString (getProp obj ''updatedAt'')" and p: "getProp obj ''people'' = Some (JArr ps)"
    and obj': "obj' = setProp obj ''people'' (JArr ps')"
    by (auto simp: validateFamilyData_def split: if_splits option.splits json.splits)
  from v have na: "\<not> isArray (Some obj)" by (cases obj) auto
  from u obtain s where s: "getProp obj ''updatedAt'' = Some (JStr s)"
    by (cases "getProp obj ''updatedAt''" rule: isString.cases) auto
  have "getProp obj' ''updatedAt'' = Some (JStr s)"
    using s by (simp add: obj' getProp_setProp_other)
  moreover have "getProp obj' ''people'' = Some (JArr ps')"
    using o na by (simp add: obj' getProp_setProp_same)
  ultimately show ?thesis by (simp add: acceptedData_def requiredProp_def)
qed

lemma handleImport_returns: "\<exists>st'. handleImport stringify obj st = Some st'"
proof (cases "validateFamilyData obj")
  case None
  then show ?thesis by (simp add: handleImport_def)
next
  case (Some obj')
  from validateFamilyData_accepted [OF Some] obtain d where "acceptedData obj' = Some d" ..
  with Some show ?thesis by (simp add: handleImport_def)
qed

section \<open>Properties of the dirty flag\<close>

text \<open>
  An accepted import and an export leave the flag off.
\<close>

lemma import_clean:
  assumes "validateFamilyData obj = Some obj'" "handleImport stringify obj st = Some st'"
  shows "\<not> dirty stringify st'"
  using assms by (auto simp: handleImport_def dirty_def split: option.splits)

lemma export_clean: "\<not> dirty stringify (handleExport stringify st)"
  by (simp add: handleExport_def dirty_def)

text \<open>
  The hash does read the person objects beyond their declared fields: two objects with
  the same declared fields and their properties in another order have different hashes
  under a serialiser that writes the properties in order. So the flag can turn on when an
  edit replaces a person object by one with the same fields.
\<close>

lemma computeHash_reads_property_order:
  "asPerson (JObj [(''id'', JStr ''a''), (''firstName'', JStr ''Ann''),
                   (''parentIds'', JArr []), (''siblingIds'', JArr [])])
     = asPerson (JObj [(''firstName'', JStr ''Ann''), (''id'', JStr ''a''),
                       (''parentIds'', JArr []), (''siblingIds'', JArr [])]) \<and>
   computeHash exampleStringify \<lparr>version = 1, updatedAt = ''t0'',
       people = [JObj [(''id'', JStr ''a''), (''firstName'', JStr ''Ann''),
                       (''parentIds'', JArr []), (''siblingIds'', JArr [])]]\<rparr>
     \<noteq> computeHash exampleStringify \<lparr>version = 1, updatedAt = ''t0'',
       people = [JObj [(''firstName'', JStr ''Ann''), (''id'', JStr ''a''),
                       (''parentIds'', JArr []), (''siblingIds'', JArr [])]]\<rparr>"
  by (simp add: asPerson_def requiredProp_def optionalProp_def computeHash_def exampleStringify_def)

text \<open>
  Claim C10. \<open>computeHash\<close> reads only \<open>people\<close>: two data values with the same people
  (the same person objects in the same order) have the same hash whatever their
  \<open>updatedAt\<close> and \<open>version\<close>, so the dirty flag is the same with either as the current
  data, and a transition that only stamps \<open>updatedAt\<close> leaves the flag as it was.
\<close>

theorem computeHash_reads_people_only:
  "people d1 = people d2 \<Longrightarrow>
     computeHash S d1 = computeHash S d2 \<and>
     dirty S (st\<lparr>data := d1\<rparr>) = dirty S (st\<lparr>data := d2\<rparr>) \<and>
     dirty S (st\<lparr>data := mutate now (\<lambda>prev. prev) d1\<rparr>) = dirty S (st\<lparr>data := d1\<rparr>)"
  by (simp add: computeHash_def dirty_def mutate_def)

theorem computeHash_reads_people_only_witness:
  "people \<lparr>version = 1, updatedAt = ''t0'',
           people = [JObj [(''firstName'', JStr ''Ann''), (''id'', JStr ''a''),
                           (''parentIds'', JArr []), (''siblingIds'', JArr [])]]\<rparr>
     = people \<lparr>version = 2, updatedAt = ''t1'',
           people = [JObj [(''firstName'', JStr ''Ann''), (''id'', JStr ''a''),
                           (''parentIds'', JArr []), (''siblingIds'', JArr [])]]\<rparr> \<and>
   computeHash exampleStringify \<lparr>version = 1, updatedAt = ''t0'',
           people = [JObj [(''firstName'', JStr ''Ann''), (''id'', JStr ''a''),
                           (''parentIds'', JArr []), (''siblingIds'', JArr [])]]\<rparr>
     = ''[{firstName:Ann,id:a,parentIds:[],siblingIds:[]}]'' \<and>
   computeHash exampleStringify \<lparr>version = 2, updatedAt = ''t1'',
           people = [JObj [(''firstName'', JStr ''Ann''), (''id'', JStr ''a''),
                           (''parentIds'', JArr []), (''siblingIds'', JArr [])]]\<rparr>
     = ''[{firstName:Ann,id:a,parentIds:[],siblingIds:[]}]'' \<and>
   dirty exampleStringify ((initialState exampleStringify ''t0'')
       \<lparr>data := \<lparr>version = 1, updatedAt = ''t0'',
           people = [JObj [(''firstName'', JStr ''Ann''), (''id'', JStr ''a''),
                           (''parentIds'', JArr []), (''siblingIds'', JArr [])]]\<rparr>\<rparr>)
     = dirty exampleStringify ((initialState exampleStringify ''t0'')
       \<lparr>data := \<lparr>version = 2, updatedAt = ''t1'',
           people = [JObj [(''firstName'', JStr ''Ann''), (''id'', JStr ''a''),
                           (''parentIds'', JArr []), (''siblingIds'', JArr [])]]\<rparr>\<rparr>)"
  using computeHash_reads_people_only [of
     "\<lparr>version = 1, updatedAt = ''t0'',
           people = [JObj [(''firstName'', JStr ''Ann''), (''id'', JStr ''a''),
                           (''parentIds'', JArr []), (''siblingIds'', JArr [])]]\<rparr>"
     "\<lparr>version = 2, updatedAt = ''t1'',
           people = [JObj [(''firstName'', JStr ''Ann''), (''id'', JStr ''a''),
                           (''parentIds'', JArr []), (''siblingIds'', JArr [])]]\<rparr>"
     exampleStringify "initialState exampleStringify ''t0''" "''t2''"]
  by (simp add: computeHash_def exampleStringify_def)

end
